theory Spec2Isabelle
  imports Complex_Main "HOL-Library.Char_ord" "HOL-Library.List_Lexorder"
begin

section \<open>Python strings\<close>

text \<open>
  A Python \<^verbatim>\<open>str\<close> is modelled as a \<open>string\<close>. Every character the two
  programs look for (\<^verbatim>\<open>'\n'\<close>, \<^verbatim>\<open>'{'\<close>, \<^verbatim>\<open>'}'\<close>, \<^verbatim>\<open>'/'\<close>, \<^verbatim>\<open>'.'\<close>
  and the ASCII letters of the extensions) is a single ASCII character.
\<close>

definition newline :: char where
  "newline = CHR 0x0A"

text \<open>\<^verbatim>\<open>s.split(sep)\<close> for a separator of one character: never an empty list.\<close>

fun py_split :: "char \<Rightarrow> string \<Rightarrow> string list" where
  "py_split sep [] = [[]]"
| "py_split sep (c # cs) =
     (if c = sep then [] # py_split sep cs
      else (case py_split sep cs of
              [] \<Rightarrow> [[c]]
            | l # ls \<Rightarrow> (c # l) # ls))"

text \<open>\<^verbatim>\<open>sep.join(xs)\<close>\<close>

fun py_join :: "string \<Rightarrow> string list \<Rightarrow> string" where
  "py_join sep [] = []"
| "py_join sep [x] = x"
| "py_join sep (x # y # zs) = x @ sep @ py_join sep (y # zs)"

text \<open>\<^verbatim>\<open>s.find(ch)\<close> and \<^verbatim>\<open>s.rfind(ch)\<close>: an index, or \<open>-1\<close> when \<open>ch\<close> is absent.\<close>

fun py_find :: "char \<Rightarrow> string \<Rightarrow> int" where
  "py_find ch [] = - 1"
| "py_find ch (c # cs) =
     (if c = ch then 0
      else (let r = py_find ch cs in if r < 0 then - 1 else r + 1))"

definition py_rfind :: "char \<Rightarrow> string \<Rightarrow> int" where
  "py_rfind ch s =
     (let r = py_find ch (rev s) in if r < 0 then - 1 else int (length s) - 1 - r)"

text \<open>
  \<^verbatim>\<open>s[i:j]\<close>. A negative index counts from the end, every index is clamped to
  \<open>0..len(s)\<close>, and the slice is empty when the start is not before the stop (the
  subtraction on \<open>nat\<close> below is then \<open>0\<close>).
\<close>

definition py_index :: "nat \<Rightarrow> int \<Rightarrow> nat" where
  "py_index n i = (if i < 0 then nat (max 0 (int n + i)) else min n (nat i))"

definition py_slice :: "string \<Rightarrow> int \<Rightarrow> int \<Rightarrow> string" where
  "py_slice s i j =
     (let a = py_index (length s) i; b = py_index (length s) j
      in take (b - a) (drop a s))"

text \<open>\<^verbatim>\<open>s.endswith(suffix)\<close>\<close>

definition py_endswith :: "string \<Rightarrow> string \<Rightarrow> bool" where
  "py_endswith s suffix =
     (length suffix \<le> length s \<and> drop (length s - length suffix) s = suffix)"

text \<open>
  \<^verbatim>\<open>s.lower()\<close> on the ASCII letters. Outside ASCII, \<^verbatim>\<open>lower\<close> yields
  no letter that occurs in one of the extensions below, so the suffix tests of the
  programs are decided by the ASCII part.
\<close>

definition lower_char :: "char \<Rightarrow> char" where
  "lower_char c =
     (if CHR ''A'' \<le> c \<and> c \<le> CHR ''Z'' then char_of (of_char c + (32 :: nat)) else c)"

definition py_lower :: "string \<Rightarrow> string" where
  "py_lower s = map lower_char s"

text \<open>\<^verbatim>\<open>ch in s\<close> for one character, and \<^verbatim>\<open>sub in s\<close> for a substring.\<close>

definition py_in :: "char \<Rightarrow> string \<Rightarrow> bool" where
  "py_in ch s = (ch \<in> set s)"

fun py_startswith :: "string \<Rightarrow> string \<Rightarrow> bool" where
  "py_startswith s [] = True"
| "py_startswith [] (p # ps) = False"
| "py_startswith (c # cs) (p # ps) = (c = p \<and> py_startswith cs ps)"

fun py_contains :: "string \<Rightarrow> string \<Rightarrow> bool" where
  "py_contains sub [] = (sub = [])"
| "py_contains sub (c # cs) = (py_startswith (c # cs) sub \<or> py_contains sub cs)"

section \<open>Paths and the file system\<close>

text \<open>
  A \<^verbatim>\<open>pathlib.Path\<close> is modelled by the list of its components
  (\<^verbatim>\<open>Path.parts\<close>): \<^verbatim>\<open>Path('mp3s/sub/a.wav')\<close> is
  \<open>[''mp3s'', ''sub'', ''a.wav'']\<close>, the empty list is \<^verbatim>\<open>Path('.')\<close>, and an
  absolute path starts with the component \<open>''/''\<close>.
\<close>

type_synonym path = "string list"

datatype error =
  ValueError | FileExistsError | FileNotFoundError | NotADirectoryError | OSError

text \<open>\<^verbatim>\<open>str(p)\<close>\<close>

definition path_str :: "path \<Rightarrow> string" where
  "path_str p =
     (case p of
        [] \<Rightarrow> ''.''
      | a # rest \<Rightarrow> if a = ''/'' then ''/'' @ py_join ''/'' rest else py_join ''/'' p)"

definition is_absolute :: "path \<Rightarrow> bool" where
  "is_absolute p = (case p of [] \<Rightarrow> False | a # rest \<Rightarrow> a = ''/'')"

text \<open>\<^verbatim>\<open>a / b\<close>: an absolute right operand replaces the left one.\<close>

definition joinpath :: "path \<Rightarrow> path \<Rightarrow> path" where
  "joinpath a b = (if is_absolute b then b else a @ b)"

text \<open>
  \<^verbatim>\<open>p.relative_to(other)\<close>: \<^verbatim>\<open>ValueError\<close> unless the components of
  \<^verbatim>\<open>other\<close> are a prefix of those of \<^verbatim>\<open>p\<close>; when \<^verbatim>\<open>other\<close> is
  \<^verbatim>\<open>Path('.')\<close>, unless \<^verbatim>\<open>p\<close> is relative
  (\<^verbatim>\<open>if (root or drv) if n == 0 else cf(abs_parts[:n]) != cf(to_abs_parts): raise\<close>).
\<close>

definition relative_to :: "path \<Rightarrow> path \<Rightarrow> error + path" where
  "relative_to p other =
     (if (if other = [] then is_absolute p else take (length other) p \<noteq> other)
      then Inl ValueError
      else Inr (drop (length other) p))"

text \<open>
  \<^verbatim>\<open>PurePath.suffix\<close> and \<^verbatim>\<open>PurePath.stem\<close> of a file name: with
  \<^verbatim>\<open>i = name.rfind('.')\<close>, the suffix is \<^verbatim>\<open>name[i:]\<close> and the stem
  \<^verbatim>\<open>name[:i]\<close> when \<^verbatim>\<open>0 < i < len(name) - 1\<close>; otherwise the suffix is empty
  and the stem is the name.
\<close>

definition py_suffix :: "string \<Rightarrow> string" where
  "py_suffix name =
     (let i = py_rfind CHR ''.'' name
      in if 0 < i \<and> i < int (length name) - 1 then drop (nat i) name else [])"

definition py_stem :: "string \<Rightarrow> string" where
  "py_stem name =
     (let i = py_rfind CHR ''.'' name
      in if 0 < i \<and> i < int (length name) - 1 then take (nat i) name else name)"

text \<open>
  \<^verbatim>\<open>p.with_suffix(suffix)\<close> for a relative path \<^verbatim>\<open>p\<close> and a well-formed
  \<^verbatim>\<open>suffix\<close> (the programs pass \<^verbatim>\<open>'.mp3'\<close>): \<^verbatim>\<open>ValueError\<close> when the path
  has an empty name; else the old suffix of the name, when there is one, is cut off
  (\<^verbatim>\<open>name[:-len(old_suffix)]\<close>) and the new one appended.
\<close>

definition with_suffix :: "path \<Rightarrow> string \<Rightarrow> error + path" where
  "with_suffix p suffix =
     (if p = [] then Inl ValueError
      else (let name = last p;
                old_suffix = py_suffix name;
                name1 = (if old_suffix = [] then name @ suffix
                         else take (length name - length old_suffix) name @ suffix)
            in Inr (butlast p @ [name1])))"

text \<open>\<^verbatim>\<open>os.path.basename(s)\<close>: \<^verbatim>\<open>s[s.rfind('/') + 1:]\<close>.\<close>

definition basename :: "string \<Rightarrow> string" where
  "basename s = drop (nat (py_rfind CHR ''/'' s + 1)) s"

text \<open>
  \<^verbatim>\<open>Path(s).name\<close> for a string \<^verbatim>\<open>s\<close>: parsing drops the empty and the
  \<^verbatim>\<open>'.'\<close> components; the name is the last component left, or empty.
\<close>

definition str_name :: "string \<Rightarrow> string" where
  "str_name s =
     (let parts = filter (\<lambda>c. c \<noteq> [] \<and> c \<noteq> ''.'') (py_split CHR ''/'' s)
      in if parts = [] then [] else last parts)"

text \<open>
  The file system: what is at a path. The current directory \<open>[]\<close> and the root
  \<open>[''/'']\<close> always exist and are directories.
\<close>

datatype kind = File | Directory

type_synonym fs = "path \<Rightarrow> kind option"

definition path_exists :: "fs \<Rightarrow> path \<Rightarrow> bool" where
  "path_exists fs p = (p = [] \<or> p = [''/''] \<or> fs p \<noteq> None)"

definition is_dir :: "fs \<Rightarrow> path \<Rightarrow> bool" where
  "is_dir fs p = (p = [] \<or> p = [''/''] \<or> fs p = Some Directory)"

text \<open>
  \<^verbatim>\<open>os.mkdir(p)\<close>: \<^verbatim>\<open>FileExistsError\<close> when something is at \<^verbatim>\<open>p\<close>,
  \<^verbatim>\<open>FileNotFoundError\<close> when the parent is missing, \<^verbatim>\<open>NotADirectoryError\<close>
  when the parent is not a directory.
\<close>

definition os_mkdir :: "fs \<Rightarrow> path \<Rightarrow> error + fs" where
  "os_mkdir fs p =
     (if path_exists fs p then Inl FileExistsError
      else if \<not> path_exists fs (butlast p) then Inl FileNotFoundError
      else if \<not> is_dir fs (butlast p) then Inl NotADirectoryError
      else Inr (fs(p \<mapsto> Directory)))"

text \<open>
  \<^verbatim>\<open>p.mkdir(parents=True, exist_ok=True)\<close>, as pathlib defines it:
  \<^verbatim>\<open>
  try:
      os.mkdir(self, mode)
  except FileNotFoundError:
      if not parents or self.parent == self:
          raise
      self.parent.mkdir(parents=True, exist_ok=True)
      self.mkdir(mode, parents=False, exist_ok=exist_ok)
  except OSError:
      if not exist_ok or not self.is_dir():
          raise
  \<close>
\<close>

function mkdir_parents :: "fs \<Rightarrow> path \<Rightarrow> error + fs" where
  "mkdir_parents fs p =
     (case os_mkdir fs p of
        Inr fs1 \<Rightarrow> Inr fs1
      | Inl e \<Rightarrow>
          if e = FileNotFoundError then
            (if p = [] then Inl e
             else (case mkdir_parents fs (butlast p) of
                     Inl e1 \<Rightarrow> Inl e1
                   | Inr fs1 \<Rightarrow>
                       (case os_mkdir fs1 p of
                          Inr fs2 \<Rightarrow> Inr fs2
                        | Inl e2 \<Rightarrow>
                            if e2 = FileNotFoundError then Inl e2
                            else if is_dir fs1 p then Inr fs1
                            else Inl e2)))
          else if is_dir fs p then Inr fs
          else Inl e)"
  by pat_completeness auto
termination
  by (relation "measure (\<lambda>(fs, p). length p)") auto

declare mkdir_parents.simps [simp del]

section \<open>The external tool and the environment\<close>

text \<open>
  \<^verbatim>\<open>subprocess.run(cmd, capture_output=True, text=True, ...)\<close> either returns a
  completed process (its return code and its \<^verbatim>\<open>stderr\<close> text) or raises (the
  executable is missing, say). What the tool does, to the file system as well, is its
  own affair: the tool is a parameter. The world threaded through a run is the file
  system and the list of the commands run so far.
\<close>

datatype proc = Completed int string | Raised

type_synonym tool = "fs \<Rightarrow> string list \<Rightarrow> proc \<times> fs"

record world =
  disk :: fs
  calls :: "string list list"

definition subprocess_run :: "tool \<Rightarrow> world \<Rightarrow> string list \<Rightarrow> proc \<times> world" where
  "subprocess_run t w cmd =
     (case t (disk w) cmd of
        (p, fs1) \<Rightarrow> (p, \<lparr>disk = fs1, calls = calls w @ [cmd]\<rparr>))"

text \<open>
  A JSON object is a dictionary from keys to values of a type \<open>'v\<close>, kept as an
  association list. The environment of a run:
  \<^item> \<open>json_loads\<close>: \<^verbatim>\<open>json.loads\<close> on a text that starts with a brace, \<open>None\<close>
    when it raises;
  \<^item> \<open>str_of\<close>: the text of a value in an f-string;
  \<^item> \<open>to_float\<close>: \<^verbatim>\<open>float(v)\<close>, \<open>None\<close> when it raises;
  \<^item> \<open>ffmpeg\<close>: the external tool;
  \<^item> \<open>os_walk\<close>: the triples \<^verbatim>\<open>(root, dirs, files)\<close> that \<^verbatim>\<open>os.walk\<close> yields
    for a directory, with \<^verbatim>\<open>root\<close> as a path.
\<close>

type_synonym 'v dict = "(string \<times> 'v) list"

type_synonym walk_entry = "path \<times> string list \<times> string list"

record 'v env =
  json_loads :: "string \<Rightarrow> 'v dict option"
  str_of :: "'v \<Rightarrow> string"
  to_float :: "'v \<Rightarrow> real option"
  ffmpeg :: tool
  os_walk :: "path \<Rightarrow> walk_entry list"

text \<open>Truth value of \<^verbatim>\<open>loudness_data\<close>: \<^verbatim>\<open>None\<close> and the empty dictionary are false.\<close>

definition truthy :: "'v dict option \<Rightarrow> bool" where
  "truthy loudness_data =
     (case loudness_data of None \<Rightarrow> False | Some d \<Rightarrow> d \<noteq> [])"

section \<open>Extraction of the JSON block from the diagnostic stream\<close>

text \<open>
  Both \<^verbatim>\<open>analyze_loudness\<close> (normalize\_audio.py, lines 86-103) and
  \<^verbatim>\<open>analyze_file\<close> (verify\_audio.py, lines 64-80) run the same scan over
  \<^verbatim>\<open>result.stderr\<close>:
  \<^verbatim>\<open>
  for i, line in enumerate(stderr_lines):
      if '{' in line and json_start is None:
          json_start = i
      if json_start is not None:
          json_data.append(line)
      if '}' in line and json_start is not None:
          break
  \<close>
\<close>

fun scan_lines ::
  "string list \<Rightarrow> nat \<Rightarrow> nat option \<Rightarrow> string list \<Rightarrow> nat option \<times> string list" where
  "scan_lines [] i json_start json_data = (json_start, json_data)"
| "scan_lines (line # rest) i json_start json_data =
     (let json_start1 =
            (if py_in CHR ''{'' line \<and> json_start = None then Some i else json_start);
          json_data1 =
            (if json_start1 \<noteq> None then json_data @ [line] else json_data)
      in if py_in CHR ''}'' line \<and> json_start1 \<noteq> None then (json_start1, json_data1)
         else scan_lines rest (i + 1) json_start1 json_data1)"

text \<open>
  The text handed to \<^verbatim>\<open>json.loads\<close>, or \<open>None\<close> when \<^verbatim>\<open>json_data\<close> is
  empty (the function then returns \<^verbatim>\<open>None\<close>):
  \<^verbatim>\<open>json_str = '\n'.join(json_data)\<close>,
  \<^verbatim>\<open>json_str = json_str[json_str.find('{'):json_str.rfind('}')+1]\<close>.
\<close>

definition extract_json_str :: "string \<Rightarrow> string option" where
  "extract_json_str stderr =
     (let stderr_lines = py_split newline stderr;
          json_data = snd (scan_lines stderr_lines 0 None [])
      in if json_data \<noteq> [] then
           (let json_str = py_join [newline] json_data
            in Some (py_slice json_str (py_find CHR ''{'' json_str)
                       (py_rfind CHR ''}'' json_str + 1)))
         else None)"

text \<open>
  The rest of the \<^verbatim>\<open>try\<close> block: \<^verbatim>\<open>json.loads(json_str)\<close>; when it raises,
  \<^verbatim>\<open>except Exception\<close> returns \<^verbatim>\<open>None\<close>.
\<close>

definition extract_json :: "'v env \<Rightarrow> string \<Rightarrow> 'v dict option" where
  "extract_json env stderr =
     (case extract_json_str stderr of
        None \<Rightarrow> None
      | Some json_str \<Rightarrow> json_loads env json_str)"

section \<open>File discovery (both programs)\<close>

definition audio_extensions :: "string list" where
  "audio_extensions =
     [''.mp3'', ''.m4a'', ''.mp4'', ''.wav'', ''.flac'', ''.aac'', ''.ogg'', ''.wma'']"

text \<open>\<^verbatim>\<open>any(file.lower().endswith(ext) for ext in audio_extensions)\<close>\<close>

definition is_audio :: "string \<Rightarrow> bool" where
  "is_audio file = list_ex (\<lambda>ext. py_endswith (py_lower file) ext) audio_extensions"

text \<open>
  \<^verbatim>\<open>
  for root, dirs, files in os.walk(source_dir):
      for file in files:
          if any(file.lower().endswith(ext) for ext in audio_extensions):
              audio_files.append(Path(root) / file)
  return sorted(audio_files)
  \<close>
  \<^verbatim>\<open>sorted\<close> orders the paths by \<^verbatim>\<open>PurePath.__lt__\<close>, which compares the
  lists of components; on lists of strings that is the lexicographic order of lists
  over the lexicographic order of strings, the order \<open>\<le>\<close> on \<open>path\<close> here.
\<close>

fun collect_files :: "path \<Rightarrow> string list \<Rightarrow> path list \<Rightarrow> path list" where
  "collect_files root_dir [] audio_files = audio_files"
| "collect_files root_dir (file # files) audio_files =
     collect_files root_dir files
       (if is_audio file then audio_files @ [joinpath root_dir [file]] else audio_files)"

fun collect_walk :: "walk_entry list \<Rightarrow> path list \<Rightarrow> path list" where
  "collect_walk [] audio_files = audio_files"
| "collect_walk ((root_dir, dirs, files) # entries) audio_files =
     collect_walk entries (collect_files root_dir files audio_files)"

definition find_audio_files :: "'v env \<Rightarrow> path \<Rightarrow> path list" where
  "find_audio_files env source_dir = sort (collect_walk (os_walk env source_dir) [])"

text \<open>
  Single-file mode (normalize\_audio.py lines 185-190, verify\_audio.py lines 151-163):
  in every directory of the walk, the first file that matches is taken.
  \<^verbatim>\<open>
  for root, dirs, files in os.walk(source_dir):
      for file in files:
          if file == os.path.basename(file_path) or str(Path(root) / file).endswith(file_path):
              audio_files.append(Path(root) / file)
              break
  \<close>
  The verifier, on the normalized tree, also accepts
  \<^verbatim>\<open>file == Path(file_path).stem + '.mp3'\<close>.
\<close>

definition matches_exact :: "string \<Rightarrow> path \<Rightarrow> string \<Rightarrow> bool" where
  "matches_exact file_path root_dir file =
     (file = basename file_path \<or>
      py_endswith (path_str (joinpath root_dir [file])) file_path)"

definition matches_mp3 :: "string \<Rightarrow> path \<Rightarrow> string \<Rightarrow> bool" where
  "matches_mp3 file_path root_dir file =
     (file = py_stem (str_name file_path) @ ''.mp3'' \<or>
      file = basename file_path \<or>
      py_endswith (path_str (joinpath root_dir [file])) file_path)"

fun search_walk :: "(path \<Rightarrow> string \<Rightarrow> bool) \<Rightarrow> walk_entry list \<Rightarrow> path list \<Rightarrow> path list" where
  "search_walk matches [] found = found"
| "search_walk matches ((root_dir, dirs, files) # entries) found =
     search_walk matches entries
       (case find (matches root_dir) files of
          None \<Rightarrow> found
        | Some file \<Rightarrow> found @ [joinpath root_dir [file]])"

section \<open>normalize\_audio.py\<close>

text \<open>
  \<^verbatim>\<open>TARGET_LUFS = -16.0\<close>, \<^verbatim>\<open>TARGET_LRA = 7.0\<close>, \<^verbatim>\<open>TARGET_TP = -1.0\<close>:
  the normalizer uses the three constants only inside f-strings, so they are kept as
  the text Python prints for them.
\<close>

definition TARGET_LUFS_text :: string where
  "TARGET_LUFS_text = ''-16.0''"

definition TARGET_LRA_text :: string where
  "TARGET_LRA_text = ''7.0''"

definition TARGET_TP_text :: string where
  "TARGET_TP_text = ''-1.0''"

definition create_output_path :: "fs \<Rightarrow> path \<Rightarrow> path \<Rightarrow> path \<Rightarrow> error + path \<times> fs" where
  "create_output_path fs source_file source_dir output_dir =
     (case relative_to source_file source_dir of
        Inl e \<Rightarrow> Inl e
      | Inr relative_path \<Rightarrow>
          (case with_suffix relative_path ''.mp3'' of
             Inl e \<Rightarrow> Inl e
           | Inr renamed \<Rightarrow>
               (let output_path = joinpath output_dir renamed
                in case mkdir_parents fs (butlast output_path) of
                     Inl e \<Rightarrow> Inl e
                   | Inr fs1 \<Rightarrow> Inr (output_path, fs1))))"

definition analyze_loudness_cmd :: "path \<Rightarrow> string list" where
  "analyze_loudness_cmd input_file =
     [''ffmpeg'', ''-i'', path_str input_file,
      ''-af'', ''loudnorm=I='' @ TARGET_LUFS_text @ '':TP='' @ TARGET_TP_text @
               '':LRA='' @ TARGET_LRA_text @ '':print_format=json'',
      ''-f'', ''null'', ''-'']"

text \<open>
  \<^verbatim>\<open>analyze_loudness\<close>: \<^verbatim>\<open>check=False\<close>, so the return code is not looked
  at; every exception inside the \<^verbatim>\<open>try\<close> gives \<^verbatim>\<open>None\<close>.
\<close>

definition analyze_loudness :: "'v env \<Rightarrow> world \<Rightarrow> path \<Rightarrow> 'v dict option \<times> world" where
  "analyze_loudness env w input_file =
     (case subprocess_run (ffmpeg env) w (analyze_loudness_cmd input_file) of
        (Raised, w1) \<Rightarrow> (None, w1)
      | (Completed returncode stderr, w1) \<Rightarrow> (extract_json env stderr, w1))"

text \<open>\<^verbatim>\<open>f"{loudness_data.get(key, default)}"\<close>\<close>

definition get_text :: "'v env \<Rightarrow> 'v dict \<Rightarrow> string \<Rightarrow> string \<Rightarrow> string" where
  "get_text env d key dflt =
     (case map_of d key of None \<Rightarrow> dflt | Some v \<Rightarrow> str_of env v)"

definition normalize_audio_cmd :: "'v env \<Rightarrow> path \<Rightarrow> path \<Rightarrow> 'v dict option \<Rightarrow> string list" where
  "normalize_audio_cmd env input_file output_file loudness_data =
     (if \<not> truthy loudness_data then
        [''ffmpeg'', ''-i'', path_str input_file,
         ''-af'', ''loudnorm=I='' @ TARGET_LUFS_text @ '':TP='' @ TARGET_TP_text @
                  '':LRA='' @ TARGET_LRA_text,
         ''-ar'', ''44100'',
         ''-b:a'', ''192k'',
         ''-y'',
         path_str output_file]
      else
        (let d = (case loudness_data of None \<Rightarrow> [] | Some d \<Rightarrow> d);
             measured_i = get_text env d ''input_i'' ''-99.0'';
             measured_tp = get_text env d ''input_tp'' ''-99.0'';
             measured_lra = get_text env d ''input_lra'' ''0.0'';
             measured_thresh = get_text env d ''input_thresh'' ''-99.0'';
             target_offset = get_text env d ''target_offset'' ''0.0''
         in [''ffmpeg'', ''-i'', path_str input_file,
             ''-af'', ''loudnorm=I='' @ TARGET_LUFS_text @ '':TP='' @ TARGET_TP_text @
                      '':LRA='' @ TARGET_LRA_text @ '':'' @
                      ''measured_I='' @ measured_i @ '':measured_TP='' @ measured_tp @ '':'' @
                      ''measured_LRA='' @ measured_lra @ '':measured_thresh='' @
                      measured_thresh @ '':'' @
                      ''offset='' @ target_offset @ '':linear=true'',
             ''-ar'', ''44100'',
             ''-b:a'', ''192k'',
             ''-y'',
             path_str output_file]))"

text \<open>
  \<^verbatim>\<open>normalize_audio\<close>: \<^verbatim>\<open>check=True\<close> turns a return code other than 0 into
  \<^verbatim>\<open>CalledProcessError\<close>, which is caught and gives \<^verbatim>\<open>False\<close>; any other
  exception of \<^verbatim>\<open>subprocess.run\<close> is not caught.
\<close>

definition normalize_audio ::
  "'v env \<Rightarrow> world \<Rightarrow> path \<Rightarrow> path \<Rightarrow> 'v dict option \<Rightarrow> (error + bool) \<times> world" where
  "normalize_audio env w input_file output_file loudness_data =
     (case subprocess_run (ffmpeg env) w
             (normalize_audio_cmd env input_file output_file loudness_data) of
        (Raised, w1) \<Rightarrow> (Inl OSError, w1)
      | (Completed returncode stderr, w1) \<Rightarrow> (Inr (returncode = 0), w1))"

record counters =
  successful :: nat
  failed :: nat
  skipped :: nat

text \<open>
  One iteration of the loop of \<^verbatim>\<open>main\<close> (lines 213-246); printing is left out.
  \<open>Inl\<close> is an exception that leaves the loop and the program.
\<close>

definition process_file ::
  "'v env \<Rightarrow> path \<Rightarrow> path \<Rightarrow> path \<Rightarrow> counters \<times> world \<Rightarrow> error + counters \<times> world" where
  "process_file env source_dir output_dir input_file cw =
     (case cw of (c, w) \<Rightarrow>
      (case relative_to input_file source_dir of
         Inl e \<Rightarrow> Inl e
       | Inr relative_path \<Rightarrow>
      (case create_output_path (disk w) input_file source_dir output_dir of
         Inl e \<Rightarrow> Inl e
       | Inr (output_file, fs1) \<Rightarrow>
           (let w1 = w\<lparr>disk := fs1\<rparr>
            in if path_exists fs1 output_file then
                 Inr (c\<lparr>skipped := skipped c + 1\<rparr>, w1)
               else
                 (case analyze_loudness env w1 input_file of
                    (loudness_data, w2) \<Rightarrow>
                 (case (if truthy loudness_data then
                          (case map_of (case loudness_data of None \<Rightarrow> [] | Some d \<Rightarrow> d)
                                  ''input_i'' of
                             None \<Rightarrow> Some (- 99)
                           | Some v \<Rightarrow> to_float env v)
                        else Some 0) of
                    None \<Rightarrow> Inl ValueError
                  | Some current_lufs \<Rightarrow>
                 (case normalize_audio env w2 input_file output_file loudness_data of
                    (Inl e, w3) \<Rightarrow> Inl e
                  | (Inr ok, w3) \<Rightarrow>
                      if ok then Inr (c\<lparr>successful := successful c + 1\<rparr>, w3)
                      else Inr (c\<lparr>failed := failed c + 1\<rparr>, w3))))))))"

fun process_all ::
  "'v env \<Rightarrow> path \<Rightarrow> path \<Rightarrow> path list \<Rightarrow> counters \<times> world \<Rightarrow> error + counters \<times> world" where
  "process_all env source_dir output_dir [] cw = Inr cw"
| "process_all env source_dir output_dir (input_file # audio_files) cw =
     (case process_file env source_dir output_dir input_file cw of
        Inl e \<Rightarrow> Inl e
      | Inr cw1 \<Rightarrow> process_all env source_dir output_dir audio_files cw1)"

text \<open>
  How a run of a program ends: \<^verbatim>\<open>sys.exit(code)\<close>, the end of \<^verbatim>\<open>main\<close> (with
  the final state), or an exception nobody catches. The interpreter's exit status is
  0 at the end of \<^verbatim>\<open>main\<close> and 1 after an uncaught exception.
\<close>

datatype 'a ended = Exited int | Finished 'a | Crashed error


text \<open>
  \<^verbatim>\<open>main\<close> of normalize\_audio.py. \<open>base_dir\<close> is \<^verbatim>\<open>Path(__file__).parent\<close>,
  \<open>argv\<close> is \<^verbatim>\<open>sys.argv\<close>, \<open>fs\<close> the file system at the start.
\<close>

definition normalize_main ::
  "'v env \<Rightarrow> path \<Rightarrow> string list \<Rightarrow> fs \<Rightarrow> (counters \<times> world) ended" where
  "normalize_main env base_dir argv fs =
     (let source_dir = joinpath base_dir [''mp3s''];
          output_dir = joinpath base_dir [''normalized''];
          batch = (\<lambda>audio_files.
            if audio_files = [] then Exited 0
            else (case process_all env source_dir output_dir audio_files
                         (\<lparr>successful = 0, failed = 0, skipped = 0\<rparr>,
                          \<lparr>disk = fs, calls = []\<rparr>) of
                    Inl e \<Rightarrow> Crashed e
                  | Inr final \<Rightarrow> Finished final))
      in if \<not> path_exists fs source_dir then Exited 1
         else if length argv > 1 then
           (let file_path = argv ! 1
            in if \<not> is_audio file_path then Exited 1
               else
                 (let audio_files =
                        search_walk (matches_exact file_path) (os_walk env source_dir) []
                  in if audio_files = [] then Exited 1
                     else (case relative_to (hd audio_files) source_dir of
                             Inl e \<Rightarrow> Crashed e
                           | Inr shown \<Rightarrow> batch audio_files)))
         else batch (find_audio_files env source_dir))"

section \<open>verify\_audio.py: the compliance check\<close>

text \<open>
  \<^verbatim>\<open>analyze_file\<close> returns the dictionary
  \<^verbatim>\<open>{'lufs': float(..), 'peak': float(..), 'lra': float(..)}\<close> or \<^verbatim>\<open>None\<close>.
  The three measured values are taken as real numbers: the check only subtracts a
  constant, takes an absolute value and compares, and the rounding of IEEE doubles is
  not part of the model.
\<close>

record loudness =
  lufs :: real
  peak :: real
  lra :: real

text \<open>
  The issue strings are f-strings over the measured value. Each constructor stands
  for one message template of the source and carries the value it interpolates:
  \<^item> \<open>Failed_to_analyze_file\<close>: \<^verbatim>\<open>"Failed to analyze file"\<close>
  \<^item> \<open>LUFS_issue v\<close>: \<^verbatim>\<open>f"LUFS {lufs:.1f} (target: {TARGET_LUFS}+-{LUFS_TOLERANCE})"\<close>
  \<^item> \<open>Peak_issue v\<close>: \<^verbatim>\<open>f"Peak {peak:.1f} dBTP exceeds {TARGET_TP} dBTP"\<close>
\<close>

datatype issue = Failed_to_analyze_file | LUFS_issue real | Peak_issue real

definition TARGET_LUFS :: real where
  "TARGET_LUFS = - 16"

definition LUFS_TOLERANCE :: real where
  "LUFS_TOLERANCE = 1 / 2"

definition TARGET_TP :: real where
  "TARGET_TP = - 1"

definition check_file_compliance :: "loudness option \<Rightarrow> bool \<times> issue list" where
  "check_file_compliance loudness_data =
     (case loudness_data of
        None \<Rightarrow> (False, [Failed_to_analyze_file])
      | Some d \<Rightarrow>
          (let issues0 = [];
               issues1 = (if \<bar>lufs d - TARGET_LUFS\<bar> > LUFS_TOLERANCE
                          then issues0 @ [LUFS_issue (lufs d)] else issues0);
               issues2 = (if peak d > TARGET_TP
                          then issues1 @ [Peak_issue (peak d)] else issues1)
           in (length issues2 = 0, issues2)))"


section \<open>verify\_audio.py: analysis and the main program\<close>

definition analyze_file_cmd :: "path \<Rightarrow> string list" where
  "analyze_file_cmd file_path =
     [''ffmpeg'', ''-i'', path_str file_path,
      ''-af'', ''loudnorm=print_format=json'',
      ''-f'', ''null'', ''-'']"

text \<open>\<^verbatim>\<open>float(data.get(key, default))\<close>, \<open>None\<close> when \<^verbatim>\<open>float\<close> raises.\<close>

definition get_float :: "'v env \<Rightarrow> 'v dict \<Rightarrow> string \<Rightarrow> real \<Rightarrow> real option" where
  "get_float env data key dflt =
     (case map_of data key of None \<Rightarrow> Some dflt | Some v \<Rightarrow> to_float env v)"

definition analyze_file :: "'v env \<Rightarrow> world \<Rightarrow> path \<Rightarrow> loudness option \<times> world" where
  "analyze_file env w file_path =
     (case subprocess_run (ffmpeg env) w (analyze_file_cmd file_path) of
        (Raised, w1) \<Rightarrow> (None, w1)
      | (Completed returncode stderr, w1) \<Rightarrow>
          (case extract_json env stderr of
             None \<Rightarrow> (None, w1)
           | Some data \<Rightarrow>
               (case (get_float env data ''input_i'' (- 99),
                      get_float env data ''input_tp'' (- 99),
                      get_float env data ''input_lra'' 0) of
                  (Some i, Some tp, Some r) \<Rightarrow> (Some \<lparr>lufs = i, peak = tp, lra = r\<rparr>, w1)
                | _ \<Rightarrow> (None, w1))))"

record tallies =
  compliant_files :: nat
  non_compliant_files :: "(string \<times> issue list \<times> loudness) list"
  failed_files :: "string list"

text \<open>One iteration of the loop of \<^verbatim>\<open>main\<close> (lines 200-224); printing is left out.\<close>

definition verify_file ::
  "'v env \<Rightarrow> path \<Rightarrow> path \<Rightarrow> tallies \<times> world \<Rightarrow> error + tallies \<times> world" where
  "verify_file env target_dir file_path tw =
     (case tw of (t, w) \<Rightarrow>
      (case relative_to file_path target_dir of
         Inl e \<Rightarrow> Inl e
       | Inr relative_path \<Rightarrow>
      (case analyze_file env w file_path of
         (loudness_data, w1) \<Rightarrow>
      (case check_file_compliance loudness_data of
         (is_compliant, issues) \<Rightarrow>
           (case loudness_data of
              None \<Rightarrow>
                Inr (t\<lparr>failed_files := failed_files t @ [path_str relative_path]\<rparr>, w1)
            | Some d \<Rightarrow>
                if is_compliant then
                  Inr (t\<lparr>compliant_files := compliant_files t + 1\<rparr>, w1)
                else
                  Inr (t\<lparr>non_compliant_files := non_compliant_files t @
                           [(path_str relative_path, issues, d)]\<rparr>, w1))))))"

fun verify_all ::
  "'v env \<Rightarrow> path \<Rightarrow> path list \<Rightarrow> tallies \<times> world \<Rightarrow> error + tallies \<times> world" where
  "verify_all env target_dir [] tw = Inr tw"
| "verify_all env target_dir (file_path # normalized_files) tw =
     (case verify_file env target_dir file_path tw of
        Inl e \<Rightarrow> Inl e
      | Inr tw1 \<Rightarrow> verify_all env target_dir normalized_files tw1)"

text \<open>
  The two aggregate checks of the summary:
  \<^item> line 238, \<^verbatim>\<open>compliant_files == total_checked and total_checked > 0\<close> with
    \<^verbatim>\<open>total_checked = len(normalized_files) - len(failed_files)\<close>, which prints
    ``All files at target loudness'';
  \<^item> line 258, \<^verbatim>\<open>compliant_files == len(normalized_files)\<close>, which prints
    ``All files ready for stage performance!''.
\<close>

definition all_at_target :: "path list \<Rightarrow> tallies \<Rightarrow> bool" where
  "all_at_target normalized_files t =
     (let total_checked = int (length normalized_files) - int (length (failed_files t))
      in int (compliant_files t) = total_checked \<and> total_checked > 0)"

definition all_ready :: "path list \<Rightarrow> tallies \<Rightarrow> bool" where
  "all_ready normalized_files t = (compliant_files t = length normalized_files)"

text \<open>
  The first lines of \<^verbatim>\<open>main\<close> of verify\_audio.py: \<^verbatim>\<open>sys.argv\<close> once the
  flag \<^verbatim>\<open>--source\<close> is removed (its first occurrence), and the directory checked.
  \<^verbatim>\<open>
  check_source = '--source' in sys.argv
  if check_source:
      sys.argv.remove('--source')
  ...
  target_dir = source_dir if check_source else normalized_dir
  \<close>
\<close>

definition argv_without_flag :: "string list \<Rightarrow> string list" where
  "argv_without_flag argv0 =
     (if ''--source'' \<in> set argv0 then remove1 ''--source'' argv0 else argv0)"

definition target_dir_of :: "path \<Rightarrow> string list \<Rightarrow> path" where
  "target_dir_of base_dir argv0 =
     (if ''--source'' \<in> set argv0 then joinpath base_dir [''mp3s'']
      else joinpath base_dir [''normalized''])"

text \<open>
  \<^verbatim>\<open>main\<close> of verify\_audio.py. A finished run gives the list of the files
  checked, the tallies and the world. The list \<^verbatim>\<open>source_files\<close> is only counted
  and printed, and is left out.
\<close>

definition verify_main ::
  "'v env \<Rightarrow> path \<Rightarrow> string list \<Rightarrow> fs \<Rightarrow> (path list \<times> tallies \<times> world) ended" where
  "verify_main env base_dir argv0 fs =
     (let check_source = (''--source'' \<in> set argv0);
          argv = argv_without_flag argv0;
          source_dir = joinpath base_dir [''mp3s''];
          normalized_dir = joinpath base_dir [''normalized''];
          target_dir = target_dir_of base_dir argv0;
          check = (\<lambda>normalized_files.
            if length normalized_files = 0 then Exited 0
            else (case verify_all env target_dir normalized_files
                         (\<lparr>compliant_files = 0, non_compliant_files = [], failed_files = []\<rparr>,
                          \<lparr>disk = fs, calls = []\<rparr>) of
                    Inl e \<Rightarrow> Crashed e
                  | Inr (t, w) \<Rightarrow> Finished (normalized_files, t, w)))
      in if \<not> path_exists fs target_dir then Exited 1
         else if length argv > 1 then
           (let file_path = argv ! 1
            in if \<not> is_audio file_path then Exited 1
               else
                 (let target_files =
                        (if check_source
                         then search_walk (matches_exact file_path) (os_walk env target_dir) []
                         else search_walk (matches_mp3 file_path) (os_walk env target_dir) [])
                  in if target_files = [] then Exited 1
                     else (case relative_to (hd target_files) target_dir of
                             Inl e \<Rightarrow> Crashed e
                           | Inr shown \<Rightarrow> check target_files)))
         else check (if check_source then find_audio_files env source_dir
                     else find_audio_files env normalized_dir))"

section \<open>Conditions for a run to reach its end\<close>









section \<open>An example environment\<close>

text \<open>
  A small environment for the concrete runs below. JSON values are strings, as the
  tool prints them. The loader fails on the empty text and otherwise returns a
  dictionary that records the text it was given; \<open>example_tool\<close> answers with a
  fixed diagnostic text and leaves the file system alone.
\<close>

definition example_loads :: "string \<Rightarrow> string dict option" where
  "example_loads json_str = (if json_str = [] then None else Some [(''text'', json_str)])"

definition example_tool :: "int \<Rightarrow> string \<Rightarrow> tool" where
  "example_tool returncode stderr = (\<lambda>fs cmd. (Completed returncode stderr, fs))"

definition example_env :: "string env" where
  "example_env =
     \<lparr>json_loads = example_loads,
      str_of = (\<lambda>v. v),
      to_float = (\<lambda>v. None),
      ffmpeg = example_tool 0 [],
      os_walk = (\<lambda>d. [])\<rparr>"

text \<open>
  A second environment, for whole runs. The source tree holds \<^verbatim>\<open>mp3s/a.WAV\<close>,
  \<^verbatim>\<open>mp3s/c.ogg\<close>, \<^verbatim>\<open>mp3s/notes.txt\<close> and \<^verbatim>\<open>mp3s/sub/b.flac\<close>; the output
  tree \<^verbatim>\<open>normalized/a.mp3\<close>, \<^verbatim>\<open>normalized/c.mp3\<close> and
  \<^verbatim>\<open>normalized/sub/b.mp3\<close>. On the disk, of the outputs only
  \<^verbatim>\<open>normalized/a.mp3\<close> is there. The tool measures every file at -16.0 LUFS and
  -1.2 dBTP, but prints no JSON for \<^verbatim>\<open>normalized/c.mp3\<close>, and it fails to convert
  \<^verbatim>\<open>mp3s/c.ogg\<close>.
\<close>

definition example_walk :: "path \<Rightarrow> walk_entry list" where
  "example_walk d =
     (if d = [''mp3s''] then
        [([''mp3s''], [''sub''], [''notes.txt'', ''c.ogg'', ''a.WAV'']),
         ([''mp3s'', ''sub''], [], [''b.flac''])]
      else if d = [''normalized''] then
        [([''normalized''], [''sub''], [''c.mp3'', ''a.mp3'']),
         ([''normalized'', ''sub''], [], [''b.mp3''])]
      else [])"

definition example_disk :: fs where
  "example_disk =
     [[''mp3s''] \<mapsto> Directory, [''normalized''] \<mapsto> Directory,
      [''normalized'', ''a.mp3''] \<mapsto> File]"

definition example_ffmpeg :: tool where
  "example_ffmpeg fs cmd =
     (if last cmd = ''-'' then
        (if cmd ! 2 = ''normalized/c.mp3''
         then (Completed 1 ''Invalid data found when processing input'', fs)
         else (Completed 0 (''[Parsed_loudnorm_0]'' @ [newline] @ ''{ measured }''), fs))
      else if cmd ! 2 = ''mp3s/c.ogg'' then (Completed 1 ''Conversion failed!'', fs)
      else (Completed 0 [], fs))"

definition example_measured :: "string \<Rightarrow> string dict option" where
  "example_measured json_str =
     (if json_str = [] then None
      else Some [(''input_i'', ''-16.0''), (''input_tp'', ''-1.2''), (''input_lra'', ''5.0'')])"

definition example_float :: "string \<Rightarrow> real option" where
  "example_float v =
     (if v = ''-16.0'' then Some (- 16)
      else if v = ''-1.2'' then Some (- 12 / 10)
      else if v = ''5.0'' then Some 5
      else None)"

definition example_run_env :: "string env" where
  "example_run_env =
     \<lparr>json_loads = example_measured,
      str_of = (\<lambda>v. v),
      to_float = example_float,
      ffmpeg = example_ffmpeg,
      os_walk = example_walk\<rparr>"

section \<open>Properties\<close>

subsection \<open>Splitting into lines and joining\<close>

lemma py_split_not_Nil: "py_split sep s \<noteq> []"
  by (induction s) (auto split: list.splits)

lemma py_split_no_sep: "sep \<notin> set s \<Longrightarrow> py_split sep s = [s]"
  by (induction s) (auto split: list.splits)

lemma py_split_Cons_sep: "py_split sep (sep # s) = [] # py_split sep s"
  by simp

lemma py_split_Cons_other:
  "c \<noteq> sep \<Longrightarrow> py_split sep (c # s) = (c # hd (py_split sep s)) # tl (py_split sep s)"
  using py_split_not_Nil [of sep s] by (cases "py_split sep s") auto

lemma py_split_append:
  "py_split sep (a @ b) =
     butlast (py_split sep a) @ [last (py_split sep a) @ hd (py_split sep b)] @ tl (py_split sep b)"
proof (induction a)
  case Nil
  then show ?case using py_split_not_Nil [of sep b] by (cases "py_split sep b") auto
next
  case (Cons c a)
  show ?case
  proof (cases "c = sep")
    case True
    then show ?thesis using Cons py_split_not_Nil [of sep a] by simp
  next
    case False
    obtain l ls where l: "py_split sep a = l # ls"
      using py_split_not_Nil [of sep a] by (cases "py_split sep a") auto
    show ?thesis using False Cons l
      by (cases ls) (simp_all add: py_split_Cons_other)
  qed
qed

lemma py_join_split: "py_join [sep] (py_split sep s) = s"
proof (induction s)
  case Nil
  then show ?case by simp
next
  case (Cons c s)
  show ?case
  proof (cases "c = sep")
    case True
    then show ?thesis using Cons py_split_not_Nil [of sep s]
      by (cases "py_split sep s") auto
  next
    case False
    obtain l ls where l: "py_split sep s = l # ls"
      using py_split_not_Nil [of sep s] by (cases "py_split sep s") auto
    then show ?thesis using False Cons by (cases ls) auto
  qed
qed

lemma py_split_chars: "l \<in> set (py_split sep s) \<Longrightarrow> set l \<subseteq> set s"
proof (induction s arbitrary: l)
  case Nil
  then show ?case by simp
next
  case (Cons c s)
  obtain x xs where x: "py_split sep s = x # xs"
    using py_split_not_Nil [of sep s] by (cases "py_split sep s") auto
  show ?case
  proof (cases "c = sep")
    case True
    then show ?thesis using Cons by auto
  next
    case False
    then have "l = c # x \<or> l \<in> set xs" using Cons.prems x by auto
    then show ?thesis using Cons.IH x by fastforce
  qed
qed

lemma py_split_line_no_sep: "l \<in> set (py_split sep s) \<Longrightarrow> sep \<notin> set l"
proof (induction s arbitrary: l)
  case Nil
  then show ?case by simp
next
  case (Cons c s)
  obtain x xs where x: "py_split sep s = x # xs"
    using py_split_not_Nil [of sep s] by (cases "py_split sep s") auto
  show ?case
  proof (cases "c = sep")
    case True
    then show ?thesis using Cons by auto
  next
    case False
    then have "l = c # x \<or> l \<in> set xs" using Cons.prems x by auto
    then show ?thesis using Cons.IH x False by fastforce
  qed
qed

lemma py_split_last_line: "py_split sep (last (py_split sep a)) = [last (py_split sep a)]"
proof -
  have "last (py_split sep a) \<in> set (py_split sep a)"
    by (simp add: py_split_not_Nil)
  then show ?thesis
    by (intro py_split_no_sep py_split_line_no_sep)
qed

lemma py_split_hd_line: "py_split sep (hd (py_split sep a)) = [hd (py_split sep a)]"
proof -
  have "hd (py_split sep a) \<in> set (py_split sep a)"
    by (simp add: py_split_not_Nil)
  then show ?thesis
    by (intro py_split_no_sep py_split_line_no_sep)
qed

lemma py_split_after_prefix:
  "py_split sep (a @ w) = butlast (py_split sep a) @ py_split sep (last (py_split sep a) @ w)"
  by (simp add: py_split_append [of sep a w]
      py_split_append [of sep "last (py_split sep a)" w] py_split_last_line)

lemma py_split_before_suffix:
  "py_split sep (z @ b) = py_split sep (z @ hd (py_split sep b)) @ tl (py_split sep b)"
  by (simp add: py_split_append [of sep z b]
      py_split_append [of sep z "hd (py_split sep b)"] py_split_hd_line)


subsection \<open>The scan for the JSON block\<close>

lemma scan_lines_skip:
  "\<forall>l \<in> set xs. \<not> py_in CHR ''{'' l \<Longrightarrow>
   scan_lines (xs @ ys) i None [] = scan_lines ys (i + length xs) None []"
  by (induction xs arbitrary: i) auto

lemma scan_lines_started:
  "\<forall>m \<in> set ms. \<not> py_in CHR ''}'' m \<Longrightarrow> py_in CHR ''}'' l \<Longrightarrow>
   scan_lines (ms @ l # rest) i (Some k) jd = (Some k, jd @ ms @ [l])"
  by (induction ms arbitrary: i jd) auto

lemma scan_lines_started_open:
  "\<forall>m \<in> set ms. \<not> py_in CHR ''}'' m \<Longrightarrow>
   scan_lines ms i (Some k) jd = (Some k, jd @ ms)"
  by (induction ms arbitrary: i jd) auto

lemma scan_lines_block:
  assumes "py_in CHR ''{'' (hd (ms @ [l]))"
    and "\<forall>m \<in> set ms. \<not> py_in CHR ''}'' m"
    and "py_in CHR ''}'' l"
  shows "scan_lines (ms @ l # rest) i None [] = (Some i, ms @ [l])"
proof (cases ms)
  case Nil
  then show ?thesis using assms by simp
next
  case (Cons m ms')
  then show ?thesis using assms scan_lines_started [of ms' l rest "i + 1" i "[m]"]
    by simp
qed

lemma py_find_absent: "ch \<notin> set s \<Longrightarrow> py_find ch s = - 1"
  by (induction s) auto

lemma py_find_bounds: "- 1 \<le> py_find ch s \<and> py_find ch s < int (length s)"
  by (induction s) (auto simp: Let_def)

lemma py_find_first: "ch \<notin> set a \<Longrightarrow> py_find ch (a @ ch # b) = int (length a)"
  by (induction a) (auto simp: Let_def)

lemma py_rfind_last: "ch \<notin> set b \<Longrightarrow> py_rfind ch (a @ ch # b) = int (length a)"
  using py_find_first [of ch "rev b" "rev a"] by (simp add: py_rfind_def Let_def)

lemma py_rfind_absent: "ch \<notin> set s \<Longrightarrow> py_rfind ch s = - 1"
  using py_find_absent [of ch "rev s"] by (simp add: py_rfind_def)

lemma py_slice_middle:
  "py_slice (a @ m @ b) (int (length a)) (int (length a + length m)) = m"
  by (simp add: py_slice_def py_index_def Let_def min_def nat_int_add)

lemma hd_py_split_no_sep_prefix:
  "sep \<notin> set p \<Longrightarrow> hd (py_split sep (p @ w)) = p @ hd (py_split sep w)"
  by (simp add: py_split_append [of sep p w] py_split_no_sep)

lemma extract_json_str_block:
  assumes pre: "CHR ''{'' \<notin> set pre"
    and early: "\<forall>m \<in> set (butlast (py_split newline
                   (last (py_split newline pre) @ CHR ''{'' # body))). CHR ''}'' \<notin> set m"
    and q: "CHR ''}'' \<notin> set (hd (py_split newline post))"
  shows "extract_json_str (pre @ CHR ''{'' # body @ CHR ''}'' # post)
           = Some (CHR ''{'' # body @ [CHR ''}''])"
proof -
  define p where "p = last (py_split newline pre)"
  define q where "q = hd (py_split newline post)"
  define U where "U = p @ CHR ''{'' # body"
  define ms where "ms = butlast (py_split newline U)"
  define l where "l = last (py_split newline U) @ CHR ''}'' # q"
  define A where "A = butlast (py_split newline pre)"
  define B where "B = tl (py_split newline post)"
  have "p \<in> set (py_split newline pre)" and "q \<in> set (py_split newline post)"
    by (simp_all add: p_def q_def py_split_not_Nil)
  then have p_nl: "newline \<notin> set p" and q_nl: "newline \<notin> set q"
    by (simp_all add: py_split_line_no_sep)
  have q_cb: "CHR ''}'' \<notin> set q"
    using q by (simp add: q_def)
  have p_ob: "CHR ''{'' \<notin> set p"
    using pre py_split_chars [of p newline pre] py_split_not_Nil [of newline pre]
    by (auto simp: p_def)
  have lines: "py_split newline (pre @ CHR ''{'' # body @ CHR ''}'' # post) = A @ (ms @ [l]) @ B"
  proof -
    have "py_split newline (pre @ CHR ''{'' # body @ CHR ''}'' # post)
            = A @ py_split newline ((U @ [CHR ''}'']) @ post)"
      using py_split_after_prefix [of newline pre "CHR ''{'' # body @ CHR ''}'' # post"]
      by (simp add: A_def U_def p_def)
    also have "py_split newline ((U @ [CHR ''}'']) @ post)
            = py_split newline (U @ CHR ''}'' # q) @ B"
      using py_split_before_suffix [of newline "U @ [CHR ''}'']" post]
      by (simp add: q_def B_def)
    also have "py_split newline (U @ CHR ''}'' # q) = ms @ [l]"
      using py_split_append [of newline U "CHR ''}'' # q"] q_nl
      by (simp add: py_split_no_sep newline_def ms_def l_def)
    finally show ?thesis by simp
  qed
  have A_ob: "\<forall>x \<in> set A. \<not> py_in CHR ''{'' x"
  proof
    fix x assume "x \<in> set A"
    then have "x \<in> set (py_split newline pre)"
      unfolding A_def by (rule in_set_butlastD)
    then show "\<not> py_in CHR ''{'' x"
      using py_split_chars [of x newline pre] pre by (auto simp: py_in_def)
  qed
  have ms_cb: "\<forall>m \<in> set ms. \<not> py_in CHR ''}'' m"
    using early by (simp add: ms_def U_def p_def py_in_def)
  have l_cb: "py_in CHR ''}'' l"
    by (simp add: l_def py_in_def)
  have whole: "ms @ [l] = py_split newline (U @ CHR ''}'' # q)"
    using py_split_append [of newline U "CHR ''}'' # q"] q_nl
    by (simp add: py_split_no_sep newline_def ms_def l_def)
  have hd_ob: "hd (py_split newline (CHR ''{'' # w)) = CHR ''{'' # hd (py_split newline w)" for w
    using py_split_Cons_other [of "CHR ''{''" newline w]
    by (simp add: newline_def del: py_split.simps)
  have "hd (ms @ [l]) = p @ hd (py_split newline (CHR ''{'' # body @ CHR ''}'' # q))"
    using hd_py_split_no_sep_prefix [OF p_nl, of "CHR ''{'' # body @ CHR ''}'' # q"]
    by (simp add: whole U_def del: py_split.simps)
  then have first: "py_in CHR ''{'' (hd (ms @ [l]))"
    by (simp add: hd_ob py_in_def del: py_split.simps)
  have scan: "scan_lines (A @ (ms @ [l]) @ B) 0 None [] = (Some (length A), ms @ [l])"
    using scan_lines_skip [OF A_ob, of "(ms @ [l]) @ B" 0]
      scan_lines_block [OF first ms_cb l_cb, of B "length A"]
    by simp
  have joined: "py_join [newline] (ms @ [l]) = p @ (CHR ''{'' # body @ [CHR ''}'']) @ q"
    by (simp add: whole py_join_split U_def)
  have f: "py_find CHR ''{'' (p @ CHR ''{'' # body @ CHR ''}'' # q) = int (length p)"
    using py_find_first [OF p_ob, of "body @ CHR ''}'' # q"] by simp
  have r: "py_rfind CHR ''}'' (p @ CHR ''{'' # body @ CHR ''}'' # q) + 1
             = 2 + (int (length p) + int (length body))"
    using py_rfind_last [OF q_cb, of "p @ CHR ''{'' # body"] by simp
  show ?thesis
    unfolding extract_json_str_def lines scan Let_def
    using py_slice_middle [of p "CHR ''{'' # body @ [CHR ''}'']" q]
    by (simp add: joined f r del: py_join.simps)
qed

lemma scan_lines_none:
  "\<forall>l \<in> set xs. \<not> py_in CHR ''{'' l \<Longrightarrow> scan_lines xs i None [] = (None, [])"
  by (induction xs arbitrary: i) auto

lemma py_rfind_bounds: "- 1 \<le> py_rfind ch s \<and> py_rfind ch s < int (length s)"
  using py_find_bounds [of ch "rev s"] by (auto simp: py_rfind_def Let_def)

lemma py_find_append_absent:
  "ch \<notin> set a \<Longrightarrow> py_find ch (a @ b) = (if py_find ch b < 0 then - 1 else int (length a) + py_find ch b)"
  using py_find_bounds [of ch b] by (induction a) (auto simp: Let_def)

lemma py_find_append_present:
  "ch \<in> set a \<Longrightarrow> py_find ch (a @ b) = py_find ch a"
  by (induction a) (auto simp: Let_def py_find_absent)

lemma py_find_present: "ch \<in> set s \<Longrightarrow> 0 \<le> py_find ch s"
  by (induction s) (auto simp: Let_def)

lemma py_rfind_append_absent: "ch \<notin> set b \<Longrightarrow> py_rfind ch (a @ b) = py_rfind ch a"
  using py_find_append_absent [of ch "rev b" "rev a"]
  by (auto simp: py_rfind_def Let_def)

lemma py_slice_empty: "0 \<le> i \<Longrightarrow> 0 \<le> j \<Longrightarrow> j \<le> i \<Longrightarrow> py_slice s i j = []"
  by (auto simp: py_slice_def py_index_def Let_def min_def)

lemma extract_json_str_no_pair:
  assumes a: "CHR ''{'' \<notin> set a" and b: "CHR ''}'' \<notin> set b"
  shows "extract_json_str (a @ b) = None \<or> extract_json_str (a @ b) = Some []"
proof (cases "CHR ''{'' \<in> set b")
  case False
  have "\<forall>l \<in> set (py_split newline (a @ b)). \<not> py_in CHR ''{'' l"
    using py_split_chars [of _ newline "a @ b"] a False by (auto simp: py_in_def)
  then have "scan_lines (py_split newline (a @ b)) 0 None [] = (None, [])"
    by (rule scan_lines_none)
  then show ?thesis by (simp add: extract_json_str_def)
next
  case True
  then obtain b1 b2 where b12: "b = b1 @ CHR ''{'' # b2" "CHR ''{'' \<notin> set b1"
    by (auto dest: split_list_first)
  define a' where "a' = a @ b1"
  define A where "A = butlast (py_split newline a')"
  define p where "p = last (py_split newline a')"
  define F where "F = p @ CHR ''{'' # hd (py_split newline b2)"
  define rest where "rest = tl (py_split newline b2)"
  have a'_ob: "CHR ''{'' \<notin> set a'" using a b12 by (simp add: a'_def)
  have b2_cb: "CHR ''}'' \<notin> set b2" using b b12 by simp
  have "p \<in> set (py_split newline a')"
    by (simp add: p_def py_split_not_Nil)
  then have p_nl: "newline \<notin> set p" and p_ob: "CHR ''{'' \<notin> set p"
    using py_split_chars [of p newline a'] a'_ob by (auto simp: py_split_line_no_sep)
  have ob_split: "py_split newline (CHR ''{'' # b2) = (CHR ''{'' # hd (py_split newline b2)) # rest"
    unfolding rest_def by (rule py_split_Cons_other) (simp add: newline_def)
  have R: "py_split newline (p @ CHR ''{'' # b2) = F # rest"
    using py_split_append [of newline p "CHR ''{'' # b2"] p_nl
    by (simp add: py_split_no_sep ob_split F_def del: py_split.simps)
  have lines: "py_split newline (a @ b) = A @ F # rest"
    using py_split_after_prefix [of newline a' "CHR ''{'' # b2"]
    using R by (simp add: b12 a'_def A_def p_def del: py_split.simps)
  have A_ob: "\<forall>x \<in> set A. \<not> py_in CHR ''{'' x"
  proof
    fix x assume "x \<in> set A"
    then have "x \<in> set (py_split newline a')"
      unfolding A_def by (rule in_set_butlastD)
    then show "\<not> py_in CHR ''{'' x"
      using py_split_chars [of x newline a'] a'_ob by (auto simp: py_in_def)
  qed
  have b2_lines: "\<forall>m \<in> set (py_split newline b2). \<not> py_in CHR ''}'' m"
    using py_split_chars [of _ newline b2] b2_cb by (auto simp: py_in_def)
  have "hd (py_split newline b2) \<in> set (py_split newline b2)"
    by (simp add: py_split_not_Nil)
  then have h_cb: "CHR ''}'' \<notin> set (hd (py_split newline b2))"
    using b2_lines by (auto simp: py_in_def)
  have rest_cb: "\<forall>m \<in> set rest. \<not> py_in CHR ''}'' m"
    using b2_lines py_split_not_Nil [of newline b2]
    by (cases "py_split newline b2") (auto simp: rest_def)
  have F_ob: "py_in CHR ''{'' F" by (simp add: F_def py_in_def)
  have skip: "scan_lines (A @ F # rest) 0 None [] = scan_lines (F # rest) (length A) None []"
    using scan_lines_skip [OF A_ob, of "F # rest" 0] by simp
  have f: "py_find CHR ''{'' (p @ CHR ''{'' # w) = int (length p)" for w
    by (rule py_find_first [OF p_ob])
  show ?thesis
  proof (cases "CHR ''}'' \<in> set p")
    case True
    then have "scan_lines (F # rest) (length A) None [] = (Some (length A), [F])"
      using F_ob by (simp add: py_in_def F_def)
    moreover have "py_rfind CHR ''}'' F = py_rfind CHR ''}'' p"
      using py_rfind_append_absent [of "CHR ''}''" "CHR ''{'' # hd (py_split newline b2)" p] h_cb
      by (simp add: F_def)
    moreover have "py_slice F (py_find CHR ''{'' F) (py_rfind CHR ''}'' p + 1) = []"
      using py_rfind_bounds [of "CHR ''}''" p]
      by (intro py_slice_empty) (simp_all add: F_def f)
    ultimately show ?thesis
      by (simp add: extract_json_str_def lines skip del: scan_lines.simps)
  next
    case False
    then have "\<not> py_in CHR ''}'' F"
      using h_cb by (simp add: F_def py_in_def)
    then have "scan_lines (F # rest) (length A) None [] = (Some (length A), F # rest)"
      using F_ob scan_lines_started_open [OF rest_cb, of "length A + 1" "length A" "[F]"]
      by simp
    moreover have "py_join [newline] (F # rest) = p @ CHR ''{'' # b2"
      using py_join_split [of newline "p @ CHR ''{'' # b2"] by (simp only: R)
    moreover have "py_rfind CHR ''}'' (p @ CHR ''{'' # b2) = - 1"
      using False b2_cb by (intro py_rfind_absent) simp
    ultimately show ?thesis
      by (simp add: extract_json_str_def lines skip f py_slice_empty
          del: scan_lines.simps py_join.simps)
  qed
qed

text \<open>
  C2 (as stated) fails. The scan stops at the first line with a closing brace, and the
  trim runs from the first opening brace to the last closing brace of what was
  gathered. Three blobs, each holding exactly one well-formed JSON object:
  \<^item> the object \<^verbatim>\<open>{\<close>, \<^verbatim>\<open>"a": "}",\<close>, \<^verbatim>\<open>"b": 1\<close>, \<^verbatim>\<open>}\<close> (four lines, nothing
    around it), whose string value holds a closing brace on a line before the last:
    the parser gets the first two lines up to the brace inside the string;
  \<^item> \<^verbatim>\<open>{x} done }\<close>, free text with a closing brace after the object on its line:
    the parser gets the whole line;
  \<^item> \<^verbatim>\<open>a { b\<close> followed by the line \<^verbatim>\<open>{x}\<close>, free text with an opening brace
    before the object: the parser gets the text from that brace on.
\<close>

theorem extract_json_str_brace_in_string:
  "extract_json_str
     (''{'' @ [newline, CHR 0x22] @ ''a'' @ [CHR 0x22] @ '': '' @ [CHR 0x22] @ ''}'' @
      [CHR 0x22] @ '','' @ [newline, CHR 0x22] @ ''b'' @ [CHR 0x22] @ '': 1'' @ [newline] @ ''}'')
   = Some (''{'' @ [newline, CHR 0x22] @ ''a'' @ [CHR 0x22] @ '': '' @ [CHR 0x22] @ ''}'') \<and>
   extract_json_str ''{x} done }'' = Some ''{x} done }'' \<and>
   extract_json_str (''a { b'' @ [newline] @ ''{x}'') = Some (''{ b'' @ [newline] @ ''{x}'')"
  by code_simp

text \<open>
  C2 (amended). Let the blob be \<open>pre @ ''{'' @ body @ ''}'' @ post\<close>, where
  \<^item> \<open>pre\<close> has no opening brace,
  \<^item> no closing brace stands on a line before the line of the closing brace of the
    object, from the line of its opening brace on (the lines of the last line of
    \<open>pre\<close> followed by \<open>''{'' @ body\<close>, but for the last of them), and
  \<^item> no closing brace follows the object on the line of its closing brace (the first
    line of \<open>post\<close>).
  Closing braces inside the object on its last line, and before the object on the line
  of a one-line object, do no harm. Then the extraction hands exactly
  \<open>''{'' @ body @ ''}''\<close> to the JSON parser and returns what the parser returns. And
  for a blob \<open>a @ b\<close> in which no opening brace is followed by a closing brace
  (\<open>a\<close> has no opening, \<open>b\<close> no closing brace), the extraction returns \<open>None\<close>,
  the parser failing on the empty text.
\<close>

theorem extract_json_block:
  "(CHR ''{'' \<notin> set pre \<and>
    (\<forall>m \<in> set (butlast (py_split newline (last (py_split newline pre) @ ''{'' @ body))).
        CHR ''}'' \<notin> set m) \<and>
    CHR ''}'' \<notin> set (hd (py_split newline post))
      \<longrightarrow> extract_json env (pre @ ''{'' @ body @ ''}'' @ post)
            = json_loads env (''{'' @ body @ ''}'')) \<and>
   (CHR ''{'' \<notin> set a \<and> CHR ''}'' \<notin> set b \<and> json_loads env [] = None
      \<longrightarrow> extract_json env (a @ b) = None)"
proof (intro conjI impI)
  assume "CHR ''{'' \<notin> set pre \<and>
    (\<forall>m \<in> set (butlast (py_split newline (last (py_split newline pre) @ ''{'' @ body))).
        CHR ''}'' \<notin> set m) \<and>
    CHR ''}'' \<notin> set (hd (py_split newline post))"
  then have "extract_json_str (pre @ CHR ''{'' # body @ CHR ''}'' # post)
               = Some (CHR ''{'' # body @ [CHR ''}''])"
    by (intro extract_json_str_block) (simp_all del: py_split.simps)
  then show "extract_json env (pre @ ''{'' @ body @ ''}'' @ post)
               = json_loads env (''{'' @ body @ ''}'')"
    by (simp add: extract_json_def)
next
  assume h: "CHR ''{'' \<notin> set a \<and> CHR ''}'' \<notin> set b \<and> json_loads env [] = None"
  then have "extract_json_str (a @ b) = None \<or> extract_json_str (a @ b) = Some []"
    by (intro extract_json_str_no_pair) simp_all
  then show "extract_json env (a @ b) = None"
    using h by (auto simp: extract_json_def)
qed

text \<open>
  Three blobs the amended statement covers: an object over three lines with free text
  around it; a one-line object with nested braces, a closing brace before it and free
  text after it; an object over two lines whose last line holds a brace in a string.
\<close>

theorem extract_json_block_witness:
  "extract_json example_env (''ffmpeg log'' @ [newline] @ ''  {'' @ [newline] @ ''x : 1''
      @ [newline] @ ''} done'' @ [newline] @ ''tail }'')
     = Some [(''text'', ''{'' @ [newline] @ ''x : 1'' @ [newline] @ ''}'')] \<and>
   extract_json example_env (''log } {a: {b: 1}} tail'' @ [newline] @ ''more }'')
     = Some [(''text'', ''{a: {b: 1}}'')] \<and>
   extract_json example_env (''{a: 1,'' @ [newline] @ ''b: '' @ [CHR 0x22] @ ''}'' @ [CHR 0x22]
      @ ''}'')
     = Some [(''text'', ''{a: 1,'' @ [newline] @ ''b: '' @ [CHR 0x22] @ ''}'' @ [CHR 0x22]
      @ ''}'')] \<and>
   extract_json example_env (''} no pair'' @ [newline] @ ''here {'') = None"
  using extract_json_block [of "''ffmpeg log'' @ [newline] @ ''  ''"
      "[newline] @ ''x : 1'' @ [newline]" "'' done'' @ [newline] @ ''tail }''"
      example_env "''} no pair'' @ [newline] @ ''here ''" "''{''"]
    extract_json_block [of "''log } ''" "''a: {b: 1}''" "'' tail'' @ [newline] @ ''more }''"
      example_env "[]" "[]"]
    extract_json_block [of "[]" "''a: 1,'' @ [newline] @ ''b: '' @ [CHR 0x22] @ ''}'' @ [CHR 0x22]"
      "[]" example_env "[]" "[]"]
  by (simp add: newline_def example_env_def example_loads_def)

subsection \<open>File discovery\<close>

lemma collect_files_eq:
  "collect_files root_dir files audio_files
     = audio_files @ map (\<lambda>file. joinpath root_dir [file]) (filter is_audio files)"
  by (induction files arbitrary: audio_files) auto

lemma collect_walk_eq:
  "collect_walk entries audio_files
     = audio_files @
       concat (map (\<lambda>(root_dir, dirs, files).
                      map (\<lambda>file. joinpath root_dir [file]) (filter is_audio files)) entries)"
  by (induction entries arbitrary: audio_files) (auto simp: collect_files_eq)

lemma py_endswith_iff: "py_endswith s suffix \<longleftrightarrow> (\<exists>front. s = front @ suffix)"
proof
  assume "py_endswith s suffix"
  then have "s = take (length s - length suffix) s @ suffix"
    by (metis append_take_drop_id py_endswith_def)
  then show "\<exists>front. s = front @ suffix" ..
next
  assume "\<exists>front. s = front @ suffix"
  then show "py_endswith s suffix" by (auto simp: py_endswith_def)
qed

lemma is_audio_iff:
  "is_audio file \<longleftrightarrow>
     (\<exists>stem ext. file = stem @ ext \<and> py_lower ext \<in> set audio_extensions)"
proof
  assume "is_audio file"
  then obtain e front where e: "e \<in> set audio_extensions" "py_lower file = front @ e"
    by (auto simp: is_audio_def list_ex_iff py_endswith_iff)
  then obtain stem ext where "file = stem @ ext" "map lower_char ext = e"
    by (auto simp: py_lower_def map_eq_append_conv)
  then show "\<exists>stem ext. file = stem @ ext \<and> py_lower ext \<in> set audio_extensions"
    using e by (auto simp: py_lower_def)
next
  assume "\<exists>stem ext. file = stem @ ext \<and> py_lower ext \<in> set audio_extensions"
  then obtain stem ext where "file = stem @ ext" "py_lower ext \<in> set audio_extensions"
    by blast
  then show "is_audio file"
    unfolding is_audio_def list_ex_iff py_endswith_iff
    by (auto simp: py_lower_def intro!: bexI [of _ "map lower_char ext"])
qed

text \<open>
  C5 (as stated) fails in its last part: \<^verbatim>\<open>sorted\<close> compares paths component by
  component, not as strings. With a file \<^verbatim>\<open>mp3s/a.mp3\<close> next to a directory
  \<^verbatim>\<open>mp3s/a\<close> that holds \<^verbatim>\<open>x.mp3\<close>, the result has \<^verbatim>\<open>mp3s/a/x.mp3\<close> first
  (\<open>''a''\<close> is a prefix of \<open>''a.mp3''\<close>), while as strings \<^verbatim>\<open>mp3s/a.mp3\<close> is the
  smaller one (\<^verbatim>\<open>'.'\<close> is below \<^verbatim>\<open>'/'\<close>).
\<close>

theorem find_audio_files_component_order:
  "find_audio_files
     (example_env\<lparr>os_walk := (\<lambda>d. [([''mp3s''], [''a''], [''a.mp3'']),
                                    ([''mp3s'', ''a''], [], [''x.mp3''])])\<rparr>) [''mp3s'']
     = [[''mp3s'', ''a'', ''x.mp3''], [''mp3s'', ''a.mp3'']] \<and>
   map path_str [[''mp3s'', ''a'', ''x.mp3''], [''mp3s'', ''a.mp3'']]
     = [''mp3s/a/x.mp3'', ''mp3s/a.mp3''] \<and>
   ''mp3s/a.mp3'' < ''mp3s/a/x.mp3'' \<and>
   \<not> sorted [''mp3s/a/x.mp3'', ''mp3s/a.mp3'']"
  by code_simp

text \<open>
  C5 (amended). For every walk of a directory tree, \<^verbatim>\<open>find_audio_files\<close>
  returns exactly the paths \<^verbatim>\<open>Path(root) / file\<close> of the files whose name ends,
  ASCII letters compared without case, with one of \<^verbatim>\<open>.mp3 .m4a .mp4 .wav .flac
  .aac .ogg .wma\<close>, and the returned list is sorted in the order of paths: by the list
  of components, each compared as a string.
\<close>

theorem find_audio_files_sorted:
  "set (find_audio_files env source_dir)
     = {joinpath root_dir [file] | root_dir dirs files file.
          (root_dir, dirs, files) \<in> set (os_walk env source_dir) \<and>
          file \<in> set files \<and> is_audio file} \<and>
   sorted (find_audio_files env source_dir) \<and>
   (is_audio name \<longleftrightarrow>
      (\<exists>stem ext. name = stem @ ext \<and> py_lower ext \<in> set audio_extensions))"
proof (intro conjI)
  show "set (find_audio_files env source_dir)
     = {joinpath root_dir [file] | root_dir dirs files file.
          (root_dir, dirs, files) \<in> set (os_walk env source_dir) \<and>
          file \<in> set files \<and> is_audio file}"
    by (auto simp: find_audio_files_def collect_walk_eq)
  show "sorted (find_audio_files env source_dir)"
    by (simp add: find_audio_files_def)
  show "is_audio name \<longleftrightarrow>
      (\<exists>stem ext. name = stem @ ext \<and> py_lower ext \<in> set audio_extensions)"
    by (rule is_audio_iff)
qed

subsection \<open>The compliance check\<close>

text \<open>
  C1. For a record that is not \<^verbatim>\<open>None\<close>, write \<open>loud\<close> for
  \<open>|lufs - TARGET_LUFS| > LUFS_TOLERANCE\<close> and \<open>pk\<close> for \<open>peak > TARGET_TP\<close>.
  The verdict is non-compliant exactly when \<open>loud\<close> or \<open>pk\<close> holds, and the issue
  list is the loudness issue (present exactly when \<open>loud\<close>) followed by the peak issue
  (present exactly when \<open>pk\<close>): one loudness issue for a loudness violation alone, one
  peak issue for a peak violation alone, both in the order (loudness, peak) when both
  are violated, and no issue, with verdict compliant, when neither is.
\<close>

theorem check_file_compliance_cases:
  "check_file_compliance (Some d) =
     (\<not> (\<bar>lufs d - TARGET_LUFS\<bar> > LUFS_TOLERANCE \<or> peak d > TARGET_TP),
      (if \<bar>lufs d - TARGET_LUFS\<bar> > LUFS_TOLERANCE then [LUFS_issue (lufs d)] else []) @
      (if peak d > TARGET_TP then [Peak_issue (peak d)] else []))"
  by (simp add: check_file_compliance_def Let_def)

theorem check_file_compliance_examples:
  "check_file_compliance (Some \<lparr>lufs = - 16, peak = - 12 / 10, lra = 5\<rparr>) = (True, []) \<and>
   check_file_compliance (Some \<lparr>lufs = - 20, peak = - 12 / 10, lra = 5\<rparr>)
     = (False, [LUFS_issue (- 20)]) \<and>
   check_file_compliance (Some \<lparr>lufs = - 16, peak = 0, lra = 5\<rparr>)
     = (False, [Peak_issue 0]) \<and>
   check_file_compliance (Some \<lparr>lufs = - 20, peak = 0, lra = 5\<rparr>)
     = (False, [LUFS_issue (- 20), Peak_issue 0])"
  using check_file_compliance_cases [of "\<lparr>lufs = - 16, peak = - 12 / 10, lra = 5\<rparr>"]
    check_file_compliance_cases [of "\<lparr>lufs = - 20, peak = - 12 / 10, lra = 5\<rparr>"]
    check_file_compliance_cases [of "\<lparr>lufs = - 16, peak = 0, lra = 5\<rparr>"]
    check_file_compliance_cases [of "\<lparr>lufs = - 20, peak = 0, lra = 5\<rparr>"]
  by (simp add: TARGET_LUFS_def LUFS_TOLERANCE_def TARGET_TP_def)

subsection \<open>The commands handed to the external tool\<close>

lemma analyze_loudness_calls:
  "calls (snd (analyze_loudness env w input_file))
     = calls w @ [analyze_loudness_cmd input_file]"
  by (simp add: analyze_loudness_def subprocess_run_def split: prod.splits proc.splits)

lemma analyze_file_calls:
  "calls (snd (analyze_file env w file_path)) = calls w @ [analyze_file_cmd file_path]"
  by (simp add: analyze_file_def subprocess_run_def
      split: prod.splits proc.splits option.splits)

text \<open>
  C8 (as stated) fails for the verifier: the audio filter of \<^verbatim>\<open>analyze_file\<close> is
  \<^verbatim>\<open>loudnorm=print_format=json\<close>, with no target loudness, true peak or LRA in it.
\<close>

theorem analyze_file_cmd_no_targets:
  "analyze_file_cmd [''normalized'', ''a.mp3'']
     = [''ffmpeg'', ''-i'', ''normalized/a.mp3'', ''-af'', ''loudnorm=print_format=json'',
        ''-f'', ''null'', ''-''] \<and>
   \<not> py_contains ''I='' (analyze_file_cmd [''normalized'', ''a.mp3''] ! 4) \<and>
   \<not> py_contains ''TP='' (analyze_file_cmd [''normalized'', ''a.mp3''] ! 4) \<and>
   \<not> py_contains ''LRA='' (analyze_file_cmd [''normalized'', ''a.mp3''] ! 4)"
  by code_simp

text \<open>
  C8 (amended). A measurement by the normalizer runs exactly one command, whose audio
  filter has the three targets baked in and asks for JSON:
  \<^verbatim>\<open>loudnorm=I=-16.0:TP=-1.0:LRA=7.0:print_format=json\<close>. A measurement by the
  verifier runs exactly one command, whose audio filter is
  \<^verbatim>\<open>loudnorm=print_format=json\<close>: it asks for JSON and names no target. Both
  commands send the media output to the null sink (\<^verbatim>\<open>-f null -\<close>).
\<close>

theorem measurement_commands:
  "analyze_loudness_cmd input_file
     = [''ffmpeg'', ''-i'', path_str input_file,
        ''-af'', ''loudnorm=I=-16.0:TP=-1.0:LRA=7.0:print_format=json'',
        ''-f'', ''null'', ''-''] \<and>
   analyze_file_cmd file_path
     = [''ffmpeg'', ''-i'', path_str file_path,
        ''-af'', ''loudnorm=print_format=json'',
        ''-f'', ''null'', ''-''] \<and>
   calls (snd (analyze_loudness env w input_file))
     = calls w @ [analyze_loudness_cmd input_file] \<and>
   calls (snd (analyze_file env w file_path)) = calls w @ [analyze_file_cmd file_path]"
  by (simp add: analyze_loudness_calls analyze_file_calls analyze_loudness_cmd_def
      analyze_file_cmd_def TARGET_LUFS_text_def TARGET_TP_text_def TARGET_LRA_text_def)

text \<open>
  C4 (as stated) fails: the mode is chosen by the truth value of the record
  (\<^verbatim>\<open>if not loudness_data\<close>), and an empty dictionary is false. A record that is
  present but empty (the tool printed \<^verbatim>\<open>{}\<close>) gives the single-pass command.
\<close>

theorem normalize_audio_cmd_empty_record:
  "normalize_audio_cmd example_env [''mp3s'', ''a.wav''] [''normalized'', ''a.mp3''] (Some [])
     = [''ffmpeg'', ''-i'', ''mp3s/a.wav'',
        ''-af'', ''loudnorm=I=-16.0:TP=-1.0:LRA=7.0'',
        ''-ar'', ''44100'', ''-b:a'', ''192k'', ''-y'', ''normalized/a.mp3'']"
  by code_simp

text \<open>
  C4 (amended). \<^verbatim>\<open>normalize_audio\<close> builds the command in exactly two modes,
  selected by whether the measurement record is present and not empty. With a
  non-empty record the audio filter passes the three targets, then
  \<^verbatim>\<open>measured_I\<close>, \<^verbatim>\<open>measured_TP\<close>, \<^verbatim>\<open>measured_LRA\<close>, \<^verbatim>\<open>measured_thresh\<close> and
  \<^verbatim>\<open>offset\<close> (each read from the record, with the defaults -99.0, -99.0, 0.0, -99.0
  and 0.0 for a missing key) and \<^verbatim>\<open>linear=true\<close>. With no record, or an empty one,
  it passes the three targets only. In both modes the command ends with
  \<^verbatim>\<open>-ar 44100 -b:a 192k -y <output>\<close>.
\<close>

theorem normalize_audio_cmd_modes:
  "normalize_audio_cmd env input_file output_file None
     = [''ffmpeg'', ''-i'', path_str input_file,
        ''-af'', ''loudnorm=I=-16.0:TP=-1.0:LRA=7.0'',
        ''-ar'', ''44100'', ''-b:a'', ''192k'', ''-y'', path_str output_file] \<and>
   normalize_audio_cmd env input_file output_file (Some [])
     = [''ffmpeg'', ''-i'', path_str input_file,
        ''-af'', ''loudnorm=I=-16.0:TP=-1.0:LRA=7.0'',
        ''-ar'', ''44100'', ''-b:a'', ''192k'', ''-y'', path_str output_file] \<and>
   (d \<noteq> [] \<longrightarrow>
    normalize_audio_cmd env input_file output_file (Some d)
     = [''ffmpeg'', ''-i'', path_str input_file,
        ''-af'', ''loudnorm=I=-16.0:TP=-1.0:LRA=7.0:measured_I='' @
                 get_text env d ''input_i'' ''-99.0'' @ '':measured_TP='' @
                 get_text env d ''input_tp'' ''-99.0'' @ '':measured_LRA='' @
                 get_text env d ''input_lra'' ''0.0'' @ '':measured_thresh='' @
                 get_text env d ''input_thresh'' ''-99.0'' @ '':offset='' @
                 get_text env d ''target_offset'' ''0.0'' @ '':linear=true'',
        ''-ar'', ''44100'', ''-b:a'', ''192k'', ''-y'', path_str output_file])"
  by (simp add: normalize_audio_cmd_def truthy_def Let_def
      TARGET_LUFS_text_def TARGET_TP_text_def TARGET_LRA_text_def)

theorem normalize_audio_cmd_modes_witness:
  "normalize_audio_cmd example_env [''mp3s'', ''a.wav''] [''normalized'', ''a.mp3'']
     (Some [(''input_i'', ''-23.54''), (''input_tp'', ''-3.10''), (''input_lra'', ''4.20''),
            (''input_thresh'', ''-33.90''), (''target_offset'', ''0.35'')])
     = [''ffmpeg'', ''-i'', ''mp3s/a.wav'',
        ''-af'', ''loudnorm=I=-16.0:TP=-1.0:LRA=7.0:measured_I=-23.54:measured_TP=-3.10:measured_LRA=4.20:measured_thresh=-33.90:offset=0.35:linear=true'',
        ''-ar'', ''44100'', ''-b:a'', ''192k'', ''-y'', ''normalized/a.mp3'']"
  using normalize_audio_cmd_modes [of example_env "[''mp3s'', ''a.wav'']"
      "[''normalized'', ''a.mp3'']"
      "[(''input_i'', ''-23.54''), (''input_tp'', ''-3.10''), (''input_lra'', ''4.20''),
        (''input_thresh'', ''-33.90''), (''target_offset'', ''0.35'')]"]
  by (simp add: get_text_def example_env_def path_str_def)

subsection \<open>Creating the output path\<close>

lemma os_mkdir_Inr: "os_mkdir fs p = Inr fs1 \<Longrightarrow> fs1 = fs(p \<mapsto> Directory)"
  by (simp add: os_mkdir_def split: if_splits)

lemma is_dir_exists: "is_dir fs p \<Longrightarrow> path_exists fs p"
  by (auto simp: is_dir_def path_exists_def)


lemma mkdir_parents_existing: "is_dir fs p \<Longrightarrow> mkdir_parents fs p = Inr fs"
  by (subst mkdir_parents.simps) (auto simp: os_mkdir_def dest: is_dir_exists)

lemma mkdir_parents_frame:
  "mkdir_parents fs p = Inr fs1 \<Longrightarrow> length p < length q \<Longrightarrow> fs1 q = fs q"
proof (induction fs p arbitrary: fs1 rule: mkdir_parents.induct)
  case (1 fs p)
  show ?case
  proof (cases "os_mkdir fs p")
    case (Inr fs2)
    then have "fs1 = fs(p \<mapsto> Directory)"
      using "1.prems"(1) by (subst (asm) mkdir_parents.simps) (auto dest: os_mkdir_Inr)
    then show ?thesis using "1.prems"(2) by auto
  next
    case (Inl e)
    show ?thesis
    proof (cases "e = FileNotFoundError")
      case False
      then have "fs1 = fs"
        using "1.prems"(1) Inl
        by (subst (asm) mkdir_parents.simps) (auto split: if_splits)
      then show ?thesis by simp
    next
      case True
      then have ne: "p \<noteq> []"
        using "1.prems"(1) Inl by (subst (asm) mkdir_parents.simps) (auto split: if_splits)
      then obtain fsa where fsa: "mkdir_parents fs (butlast p) = Inr fsa"
        using "1.prems"(1) Inl True
        by (subst (asm) mkdir_parents.simps) (auto split: if_splits sum.splits)
      have "fsa q = fs q"
        using "1.IH" [OF Inl True ne fsa] "1.prems"(2) by simp
      moreover have "fs1 = fsa \<or> fs1 = fsa(p \<mapsto> Directory)"
        using "1.prems"(1) Inl True ne fsa
        by (subst (asm) mkdir_parents.simps)
          (auto split: if_splits sum.splits dest: os_mkdir_Inr)
      ultimately show ?thesis using "1.prems"(2) by auto
    qed
  qed
qed






lemma with_suffix_mp3:
  "p \<noteq> [] \<Longrightarrow> with_suffix p ''.mp3'' = Inr (butlast p @ [py_stem (last p) @ ''.mp3''])"
  by (auto simp: with_suffix_def py_suffix_def py_stem_def Let_def)

lemma joinpath_not_Nil: "b \<noteq> [] \<Longrightarrow> joinpath a b \<noteq> []"
  by (simp add: joinpath_def)

lemma create_output_path_Inr:
  assumes "create_output_path fs source_file source_dir output_dir = Inr (out, fs1)"
  shows "\<exists>rel. relative_to source_file source_dir = Inr rel \<and> rel \<noteq> [] \<and>
           out = joinpath output_dir (butlast rel @ [py_stem (last rel) @ ''.mp3'']) \<and>
           mkdir_parents fs (butlast out) = Inr fs1"
proof -
  obtain rel where rel: "relative_to source_file source_dir = Inr rel"
    using assms by (auto simp: create_output_path_def split: sum.splits)
  have ne: "rel \<noteq> []"
    using assms rel by (auto simp: create_output_path_def with_suffix_def)
  show ?thesis
    using assms rel ne
    by (auto simp: create_output_path_def with_suffix_mp3 Let_def split: sum.splits)
qed

lemma create_output_path_frame:
  assumes "create_output_path fs source_file source_dir output_dir = Inr (out, fs1)"
  shows "path_exists fs1 out = path_exists fs out"
proof -
  obtain rel where "rel \<noteq> []"
    "out = joinpath output_dir (butlast rel @ [py_stem (last rel) @ ''.mp3''])"
    "mkdir_parents fs (butlast out) = Inr fs1"
    using create_output_path_Inr [OF assms] by blast
  then have "out \<noteq> []" and "mkdir_parents fs (butlast out) = Inr fs1"
    by (simp_all add: joinpath_not_Nil)
  then have "fs1 out = fs out"
    by (intro mkdir_parents_frame [of fs "butlast out"]) simp_all
  then show ?thesis by (simp add: path_exists_def)
qed



subsection \<open>The loop of the normalizer\<close>

text \<open>
  C7. When the output path computed for a file exists before the file is processed,
  the iteration adds one to \<open>skipped\<close>, leaves \<open>successful\<close> and \<open>failed\<close> as
  they are, and runs no command: the list of the commands run is unchanged (the only
  effect is the creation of the output directory by \<^verbatim>\<open>create_output_path\<close>).
\<close>

theorem process_file_skips_existing:
  "create_output_path (disk w) input_file source_dir output_dir = Inr (output_file, fs1) \<and>
   path_exists (disk w) output_file
     \<longrightarrow> process_file env source_dir output_dir input_file (c, w)
           = Inr (c\<lparr>skipped := skipped c + 1\<rparr>, w\<lparr>disk := fs1\<rparr>) \<and>
         successful (c\<lparr>skipped := skipped c + 1\<rparr>) = successful c \<and>
         failed (c\<lparr>skipped := skipped c + 1\<rparr>) = failed c \<and>
         calls (w\<lparr>disk := fs1\<rparr>) = calls w"
proof (intro impI)
  assume h: "create_output_path (disk w) input_file source_dir output_dir
               = Inr (output_file, fs1) \<and> path_exists (disk w) output_file"
  then obtain rel where rel: "relative_to input_file source_dir = Inr rel"
    using create_output_path_Inr [of "disk w" input_file source_dir output_dir output_file fs1]
    by blast
  have "path_exists fs1 output_file"
    using h create_output_path_frame [of "disk w" input_file source_dir output_dir
        output_file fs1] by simp
  then show "process_file env source_dir output_dir input_file (c, w)
           = Inr (c\<lparr>skipped := skipped c + 1\<rparr>, w\<lparr>disk := fs1\<rparr>) \<and>
         successful (c\<lparr>skipped := skipped c + 1\<rparr>) = successful c \<and>
         failed (c\<lparr>skipped := skipped c + 1\<rparr>) = failed c \<and>
         calls (w\<lparr>disk := fs1\<rparr>) = calls w"
    using h rel by (simp add: process_file_def)
qed

theorem process_file_skips_existing_witness:
  "process_file example_run_env [''mp3s''] [''normalized''] [''mp3s'', ''a.WAV'']
     (\<lparr>successful = 0, failed = 0, skipped = 0\<rparr>, \<lparr>disk = example_disk, calls = []\<rparr>)
   = Inr (\<lparr>successful = 0, failed = 0, skipped = 1\<rparr>, \<lparr>disk = example_disk, calls = []\<rparr>)"
proof -
  have "is_dir example_disk [''normalized'']"
    by (simp add: is_dir_def example_disk_def)
  then have "mkdir_parents example_disk [''normalized''] = Inr example_disk"
    by (rule mkdir_parents_existing)
  moreover have "with_suffix [''a.WAV''] ''.mp3'' = Inr [''a.mp3'']"
    by code_simp
  ultimately have "create_output_path example_disk [''mp3s'', ''a.WAV''] [''mp3s''] [''normalized'']
      = Inr ([''normalized'', ''a.mp3''], example_disk)"
    by (simp add: create_output_path_def relative_to_def joinpath_def is_absolute_def)
  moreover have "path_exists example_disk [''normalized'', ''a.mp3'']"
    by (simp add: path_exists_def example_disk_def)
  ultimately show ?thesis
    using process_file_skips_existing [of "\<lparr>disk = example_disk, calls = []\<rparr>"
        "[''mp3s'', ''a.WAV'']" "[''mp3s'']" "[''normalized'']" "[''normalized'', ''a.mp3'']"
        example_disk example_run_env "\<lparr>successful = 0, failed = 0, skipped = 0\<rparr>"]
    by simp
qed

lemma process_file_counts:
  assumes "process_file env source_dir output_dir input_file (c, w) = Inr (c1, w1)"
  shows "(skipped c1 = skipped c + 1 \<and> successful c1 = successful c \<and> failed c1 = failed c) \<or>
         (skipped c1 = skipped c \<and> successful c1 = successful c + 1 \<and> failed c1 = failed c) \<or>
         (skipped c1 = skipped c \<and> successful c1 = successful c \<and> failed c1 = failed c + 1)"
  using assms
  by (auto simp: process_file_def Let_def
      split: sum.splits prod.splits if_splits option.splits)

lemma process_all_counts:
  "process_all env source_dir output_dir audio_files (c, w) = Inr (c1, w1) \<Longrightarrow>
   successful c1 + skipped c1 + failed c1
     = successful c + skipped c + failed c + length audio_files"
proof (induction audio_files arbitrary: c w)
  case Nil
  then show ?case by simp
next
  case (Cons input_file audio_files)
  then obtain c2 w2 where
    step: "process_file env source_dir output_dir input_file (c, w) = Inr (c2, w2)" and
    rest: "process_all env source_dir output_dir audio_files (c2, w2) = Inr (c1, w1)"
    by (auto split: sum.splits)
  show ?case
    using Cons.IH [OF rest] process_file_counts [OF step] by auto
qed

text \<open>
  C10. Every iteration of the loop that returns adds one to exactly one of the three
  counters and leaves the other two as they are; and at the end of every batch run
  that reaches the summary, \<open>successful + skipped + failed\<close> is the number of the
  files discovered.
\<close>

theorem counters_sum_to_total:
  "(process_file env source_dir output_dir input_file (c, w) = Inr (c1, w1) \<longrightarrow>
      (skipped c1 = skipped c + 1 \<and> successful c1 = successful c \<and> failed c1 = failed c) \<or>
      (skipped c1 = skipped c \<and> successful c1 = successful c + 1 \<and> failed c1 = failed c) \<or>
      (skipped c1 = skipped c \<and> successful c1 = successful c \<and> failed c1 = failed c + 1)) \<and>
   (length argv \<le> 1 \<and> normalize_main env base_dir argv fs = Finished (c_end, w_end) \<longrightarrow>
      successful c_end + skipped c_end + failed c_end
        = length (find_audio_files env (joinpath base_dir [''mp3s''])))"
proof (intro conjI impI)
  assume "process_file env source_dir output_dir input_file (c, w) = Inr (c1, w1)"
  then show "(skipped c1 = skipped c + 1 \<and> successful c1 = successful c \<and> failed c1 = failed c) \<or>
      (skipped c1 = skipped c \<and> successful c1 = successful c + 1 \<and> failed c1 = failed c) \<or>
      (skipped c1 = skipped c \<and> successful c1 = successful c \<and> failed c1 = failed c + 1)"
    by (rule process_file_counts)
next
  assume h: "length argv \<le> 1 \<and> normalize_main env base_dir argv fs = Finished (c_end, w_end)"
  then have "process_all env (joinpath base_dir [''mp3s'']) (joinpath base_dir [''normalized''])
               (find_audio_files env (joinpath base_dir [''mp3s'']))
               (\<lparr>successful = 0, failed = 0, skipped = 0\<rparr>, \<lparr>disk = fs, calls = []\<rparr>)
             = Inr (c_end, w_end)"
    by (auto simp: normalize_main_def Let_def split: if_splits sum.splits)
  then show "successful c_end + skipped c_end + failed c_end
        = length (find_audio_files env (joinpath base_dir [''mp3s'']))"
    by (auto dest: process_all_counts)
qed
theorem counters_sum_to_total_witness:
  "\<exists>w. normalize_main example_run_env [] [''normalize_audio.py''] example_disk
          = Finished (\<lparr>successful = 1, failed = 1, skipped = 1\<rparr>, w) \<and>
       length (find_audio_files example_run_env [''mp3s'']) = 3"
proof -
  have "map_ended fst (normalize_main example_run_env [] [''normalize_audio.py''] example_disk)
          = Finished \<lparr>successful = 1, failed = 1, skipped = 1\<rparr>"
    by code_simp
  then obtain w where run:
    "normalize_main example_run_env [] [''normalize_audio.py''] example_disk
       = Finished (\<lparr>successful = 1, failed = 1, skipped = 1\<rparr>, w)"
    by (cases "normalize_main example_run_env [] [''normalize_audio.py''] example_disk") auto
  have "joinpath [] [''mp3s''] = [''mp3s'']"
    by (simp add: joinpath_def is_absolute_def)
  moreover have "length [''normalize_audio.py''] \<le> 1 \<and>
      normalize_main example_run_env [] [''normalize_audio.py''] example_disk
        = Finished (\<lparr>successful = 1, failed = 1, skipped = 1\<rparr>, w)
      \<longrightarrow> successful \<lparr>successful = 1, failed = 1, skipped = 1\<rparr>
            + skipped \<lparr>successful = 1, failed = 1, skipped = 1\<rparr>
            + failed \<lparr>successful = 1, failed = 1, skipped = 1\<rparr>
          = length (find_audio_files example_run_env (joinpath [] [''mp3s'']))"
    by (rule counters_sum_to_total [THEN conjunct2])
  ultimately have "length (find_audio_files example_run_env [''mp3s'']) = 3"
    using run by simp
  then show ?thesis using run by blast
qed

subsection \<open>The loop of the verifier\<close>

lemma verify_file_tally:
  assumes "verify_file env target_dir file_path (t, w) = Inr (t1, w1)"
  shows "compliant_files t1 + length (non_compliant_files t1) + length (failed_files t1)
           = compliant_files t + length (non_compliant_files t) + length (failed_files t) + 1 \<and>
         length (failed_files t) \<le> length (failed_files t1)"
  using assms
  by (auto simp: verify_file_def split: sum.splits prod.splits option.splits if_splits)

lemma verify_file_None:
  assumes "verify_file env target_dir file_path (t, w) = Inr (t1, w1)"
    and "fst (analyze_file env w file_path) = None"
  shows "length (failed_files t1) = length (failed_files t) + 1"
  using assms
  by (auto simp: verify_file_def split: sum.splits prod.splits option.splits if_splits)

lemma verify_file_None_listed:
  assumes "verify_file env target_dir file_path (t, w) = Inr (t1, w1)"
    and "fst (analyze_file env w file_path) = None"
  shows "\<exists>rel. relative_to file_path target_dir = Inr rel \<and>
               path_str rel \<in> set (failed_files t1)"
  using assms
  by (auto simp: verify_file_def split: sum.splits prod.splits option.splits if_splits)

lemma verify_file_keeps_failed:
  assumes "verify_file env target_dir file_path (t, w) = Inr (t1, w1)"
  shows "set (failed_files t) \<subseteq> set (failed_files t1)"
  using assms
  by (auto simp: verify_file_def split: sum.splits prod.splits option.splits if_splits)

lemma verify_all_keeps_failed:
  "verify_all env target_dir normalized_files (t, w) = Inr (t1, w1) \<Longrightarrow>
   set (failed_files t) \<subseteq> set (failed_files t1)"
proof (induction normalized_files arbitrary: t w)
  case Nil
  then show ?case by simp
next
  case (Cons file_path normalized_files)
  then obtain t2 w2 where
    step: "verify_file env target_dir file_path (t, w) = Inr (t2, w2)" and
    rest: "verify_all env target_dir normalized_files (t2, w2) = Inr (t1, w1)"
    by (auto split: sum.splits)
  show ?case
    using Cons.IH [OF rest] verify_file_keeps_failed [OF step] by blast
qed

lemma verify_all_tally:
  "verify_all env target_dir normalized_files (t, w) = Inr (t1, w1) \<Longrightarrow>
   compliant_files t1 + length (non_compliant_files t1) + length (failed_files t1)
     = compliant_files t + length (non_compliant_files t) + length (failed_files t)
       + length normalized_files \<and>
   length (failed_files t) \<le> length (failed_files t1)"
proof (induction normalized_files arbitrary: t w)
  case Nil
  then show ?case by simp
next
  case (Cons file_path normalized_files)
  then obtain t2 w2 where
    step: "verify_file env target_dir file_path (t, w) = Inr (t2, w2)" and
    rest: "verify_all env target_dir normalized_files (t2, w2) = Inr (t1, w1)"
    by (auto split: sum.splits)
  show ?case
    using Cons.IH [OF rest] verify_file_tally [OF step] by auto
qed

lemma verify_all_append:
  "verify_all env target_dir (xs @ ys) tw =
     (case verify_all env target_dir xs tw of
        Inl e \<Rightarrow> Inl e
      | Inr tw1 \<Rightarrow> verify_all env target_dir ys tw1)"
  by (induction xs arbitrary: tw) (auto split: sum.splits)

lemma all_at_target_iff:
  assumes "verify_all env target_dir normalized_files
             (\<lparr>compliant_files = 0, non_compliant_files = [], failed_files = []\<rparr>, w0)
           = Inr (t, w)"
  shows "all_at_target normalized_files t
           \<longleftrightarrow> non_compliant_files t = [] \<and> 0 < compliant_files t"
proof -
  have "compliant_files t + length (non_compliant_files t) + length (failed_files t)
          = length normalized_files"
    using verify_all_tally [OF assms] by simp
  then have "int (length normalized_files) - int (length (failed_files t))
          = int (compliant_files t) + int (length (non_compliant_files t))"
    by linarith
  then show ?thesis
    by (auto simp: all_at_target_def Let_def)
qed

text \<open>
  C3 (as stated) fails for the first of the two aggregate checks. In the example run
  the record of \<^verbatim>\<open>normalized/c.mp3\<close> is null (the file is listed in
  \<^verbatim>\<open>failed_files\<close>), the two other files are compliant, and the check of line 238
  holds: \<^verbatim>\<open>total_checked\<close> leaves the failed files out, so the run prints
  ``All files at target loudness''. The final headline check does not hold.
\<close>

theorem null_record_all_at_target:
  "map_ended (\<lambda>(normalized_files, t, w).
       (normalized_files, failed_files t, compliant_files t,
        all_at_target normalized_files t, all_ready normalized_files t))
     (verify_main example_run_env [] [''verify_audio.py''] example_disk)
   = Finished ([[''normalized'', ''a.mp3''], [''normalized'', ''c.mp3''],
                [''normalized'', ''sub'', ''b.mp3'']], [''c.mp3''], 2, True, False)"
  by code_simp

text \<open>
  C3 (amended). The compliance result of a null record is non-compliant with the single
  issue ``Failed to analyze file''. In every verification run in which the record of
  some file is null (here: the file analysed after the files \<open>before\<close>, in the world
  they left), the path of that file relative to the directory checked is in the list
  of the failed files, and the final check ``all files ready'' is not satisfied. The summary line ``All files at target loudness'' leaves the failed
  files out of its count: it is satisfied exactly when no analysed file is
  non-compliant and at least one file is compliant.
\<close>

theorem null_record_not_all_ready:
  "check_file_compliance None = (False, [Failed_to_analyze_file]) \<and>
   (verify_all env target_dir before
      (\<lparr>compliant_files = 0, non_compliant_files = [], failed_files = []\<rparr>, w0)
      = Inr (t1, w1) \<and>
    fst (analyze_file env w1 file_path) = None \<and>
    verify_all env target_dir (before @ file_path # after)
      (\<lparr>compliant_files = 0, non_compliant_files = [], failed_files = []\<rparr>, w0)
      = Inr (t, w)
    \<longrightarrow> \<not> all_ready (before @ file_path # after) t \<and>
        failed_files t \<noteq> [] \<and>
        (\<exists>rel. relative_to file_path target_dir = Inr rel \<and>
               path_str rel \<in> set (failed_files t)) \<and>
        (all_at_target (before @ file_path # after) t
           \<longleftrightarrow> non_compliant_files t = [] \<and> 0 < compliant_files t))"
proof (intro conjI impI)
  show "check_file_compliance None = (False, [Failed_to_analyze_file])"
    by (simp add: check_file_compliance_def)
next
  assume h: "verify_all env target_dir before
      (\<lparr>compliant_files = 0, non_compliant_files = [], failed_files = []\<rparr>, w0)
      = Inr (t1, w1) \<and>
    fst (analyze_file env w1 file_path) = None \<and>
    verify_all env target_dir (before @ file_path # after)
      (\<lparr>compliant_files = 0, non_compliant_files = [], failed_files = []\<rparr>, w0)
      = Inr (t, w)"
  then obtain t2 w2 where
    step: "verify_file env target_dir file_path (t1, w1) = Inr (t2, w2)" and
    rest: "verify_all env target_dir after (t2, w2) = Inr (t, w)"
    by (auto simp: verify_all_append split: sum.splits)
  have "1 \<le> length (failed_files t2)"
    using verify_file_None [OF step] h by simp
  then have failed: "1 \<le> length (failed_files t)"
    using verify_all_tally [OF rest] by simp
  have total: "compliant_files t + length (non_compliant_files t) + length (failed_files t)
                 = length (before @ file_path # after)"
    using h verify_all_tally [of env target_dir "before @ file_path # after"
        "\<lparr>compliant_files = 0, non_compliant_files = [], failed_files = []\<rparr>" w0 t w]
    by simp
  show "\<not> all_ready (before @ file_path # after) t"
    using failed total by (simp add: all_ready_def)
  show "failed_files t \<noteq> []"
    using failed by auto
  show "\<exists>rel. relative_to file_path target_dir = Inr rel \<and>
               path_str rel \<in> set (failed_files t)"
  proof -
    obtain rel where "relative_to file_path target_dir = Inr rel"
      "path_str rel \<in> set (failed_files t2)"
      using verify_file_None_listed [OF step] h by auto
    then show ?thesis
      using verify_all_keeps_failed [OF rest] by auto
  qed
  show "all_at_target (before @ file_path # after) t
           \<longleftrightarrow> non_compliant_files t = [] \<and> 0 < compliant_files t"
    using h all_at_target_iff [of env target_dir "before @ file_path # after" w0 t w]
    by simp
qed

theorem null_record_not_all_ready_witness:
  "\<exists>t w. verify_all example_run_env [''normalized'']
            ([[''normalized'', ''a.mp3'']] @ [''normalized'', ''c.mp3'']
               # [[''normalized'', ''sub'', ''b.mp3'']])
            (\<lparr>compliant_files = 0, non_compliant_files = [], failed_files = []\<rparr>,
             \<lparr>disk = example_disk, calls = []\<rparr>) = Inr (t, w) \<and>
          \<not> all_ready ([[''normalized'', ''a.mp3'']] @ [''normalized'', ''c.mp3'']
               # [[''normalized'', ''sub'', ''b.mp3'']]) t \<and>
          ''c.mp3'' \<in> set (failed_files t)"
proof -
  let ?init = "(\<lparr>compliant_files = 0, non_compliant_files = [], failed_files = []\<rparr>,
                \<lparr>disk = example_disk, calls = []\<rparr>)"
  have "map_sum id fst (verify_all example_run_env [''normalized'']
          [[''normalized'', ''a.mp3'']] ?init)
        = Inr \<lparr>compliant_files = 1, non_compliant_files = [], failed_files = []\<rparr>"
    by code_simp
  then obtain t1 w1 where before:
    "verify_all example_run_env [''normalized''] [[''normalized'', ''a.mp3'']] ?init = Inr (t1, w1)"
    by (cases "verify_all example_run_env [''normalized''] [[''normalized'', ''a.mp3'']] ?init")
      auto
  have "extract_json example_run_env ''Invalid data found when processing input'' = None"
    by code_simp
  moreover have "ffmpeg example_run_env (disk w1) (analyze_file_cmd [''normalized'', ''c.mp3''])
      = (Completed 1 ''Invalid data found when processing input'', disk w1)"
    by (simp add: example_run_env_def example_ffmpeg_def analyze_file_cmd_def path_str_def)
  ultimately have none: "fst (analyze_file example_run_env w1 [''normalized'', ''c.mp3'']) = None"
    by (simp add: analyze_file_def subprocess_run_def)
  have "map_sum id (\<lambda>(t, w). compliant_files t)
          (verify_all example_run_env [''normalized'']
            ([[''normalized'', ''a.mp3'']] @ [''normalized'', ''c.mp3'']
               # [[''normalized'', ''sub'', ''b.mp3'']]) ?init) = Inr 2"
    by code_simp
  then obtain t w where run:
    "verify_all example_run_env [''normalized'']
            ([[''normalized'', ''a.mp3'']] @ [''normalized'', ''c.mp3'']
               # [[''normalized'', ''sub'', ''b.mp3'']]) ?init = Inr (t, w)"
    by (cases "verify_all example_run_env [''normalized'']
            ([[''normalized'', ''a.mp3'']] @ [''normalized'', ''c.mp3'']
               # [[''normalized'', ''sub'', ''b.mp3'']]) ?init") auto
  have "\<not> all_ready ([[''normalized'', ''a.mp3'']] @ [''normalized'', ''c.mp3'']
               # [[''normalized'', ''sub'', ''b.mp3'']]) t \<and>
        (\<exists>rel. relative_to [''normalized'', ''c.mp3''] [''normalized''] = Inr rel \<and>
               path_str rel \<in> set (failed_files t))"
    using null_record_not_all_ready [of example_run_env "[''normalized'']"
        "[[''normalized'', ''a.mp3'']]" "\<lparr>disk = example_disk, calls = []\<rparr>" t1 w1
        "[''normalized'', ''c.mp3'']" "[[''normalized'', ''sub'', ''b.mp3'']]" t w]
      before none run
    by blast
  moreover have "relative_to [''normalized'', ''c.mp3''] [''normalized''] = Inr [''c.mp3'']"
    by (simp add: relative_to_def)
  moreover have "path_str [''c.mp3''] = ''c.mp3''"
    by (simp add: path_str_def)
  ultimately have "\<not> all_ready ([[''normalized'', ''a.mp3'']] @ [''normalized'', ''c.mp3'']
               # [[''normalized'', ''sub'', ''b.mp3'']]) t \<and>
        ''c.mp3'' \<in> set (failed_files t)"
    by auto
  then show ?thesis using run by blast
qed

subsection \<open>Exit codes\<close>





















end
